theory Spec2Isabelle
  imports Main
begin

section \<open>Data model (prisma schema)\<close>

text \<open>
  The tables of the Prisma schema that the campaign engine and the quota middleware touch.
  A table is a list of rows; JSON objects (\<open>Plan.limits\<close>, \<open>User.quotaUsed\<close>) are
  association lists from resource name to integer. Identifiers are strings, timestamps are
  milliseconds since the epoch. Optional columns (\<open>String?\<close>, \<open>DateTime?\<close>) are options.
  The \<open>Int\<close> columns and the JSON numbers are unbounded integers here: the operations
  below add at most one to a counter at a time. Of the enums, \<open>CampaignContactStatus\<close>
  and \<open>MessageStatus\<close> carry a prefix, since they share names with each other and with
  \<open>CampaignStatus\<close>.
\<close>

datatype CampaignStatus = DRAFT | SCHEDULED | RUNNING | PAUSED | COMPLETED | FAILED

datatype CampaignContactStatus = CC_PENDING | CC_SENT | CC_DELIVERED | CC_READ | CC_FAILED

datatype MessageStatus = MSG_SENT | MSG_DELIVERED | MSG_READ | MSG_FAILED

datatype MessageDirection = INBOUND | OUTBOUND

datatype MessageType = TEXT | TEMPLATE

record Plan =
  plan_id :: string
  plan_name :: string
  plan_features :: "string list"
  plan_limits :: "(string \<times> int) list"

record User =
  user_id :: string
  user_planId :: "string option"
  user_quotaUsed :: "(string \<times> int) list"

record Campaign =
  c_id :: string
  c_userId :: string
  c_whatsappAccountId :: string
  c_templateId :: "string option"
  c_name :: string
  c_description :: "string option"
  c_status :: CampaignStatus
  c_scheduledAt :: "int option"
  c_startedAt :: "int option"
  c_completedAt :: "int option"
  c_totalContacts :: int
  c_sentCount :: int
  c_deliveredCount :: int
  c_readCount :: int
  c_failedCount :: int

record CampaignContact =
  cc_campaignId :: string
  cc_contactId :: string
  cc_status :: CampaignContactStatus
  cc_sentAt :: "int option"
  cc_deliveredAt :: "int option"
  cc_readAt :: "int option"
  cc_failedAt :: "int option"
  cc_errorMessage :: "string option"

record Message =
  m_userId :: string
  m_whatsappAccountId :: string
  m_contactId :: string
  m_campaignId :: "string option"
  m_templateId :: "string option"
  m_direction :: MessageDirection
  m_type :: MessageType
  m_content :: string
  m_status :: MessageStatus
  m_whatsappMessageId :: "string option"
  m_errorMessage :: "string option"
  m_deliveredAt :: "int option"
  m_readAt :: "int option"

record Template =
  t_id :: string
  t_name :: string

record db =
  users :: "User list"
  plans :: "Plan list"
  templates :: "Template list"
  campaigns :: "Campaign list"
  campaignContacts :: "CampaignContact list"
  messages :: "Message list"

text \<open>
  What the code holds after \<open>obj[key]\<close> on a JSON object of numbers: \<open>undefined\<close>,
  a number, or a property that every object inherits from \<open>Object.prototype\<close>, kept
  by its name.
\<close>

datatype jsval = Undefined | Num int | Inherited string

text \<open>
  What a handler sends back: the HTTP status and the JSON body. The body of the usage
  answer carries \<open>limit\<close> and \<open>used\<close> as the handler holds them (the serialisation
  leaves a function-valued field out).
\<close>

datatype body =
    ErrorBody string
  | UsageLimitBody string string jsval jsval bool
  | MessageBody string
  | CampaignBody Campaign

datatype response = Response nat body


section \<open>Quota ledger (middleware/planAccess.ts)\<close>

text \<open>
  \<open>prisma.user.findUnique({ where: { id }, include: { plan: true } })\<close>: the user row
  with the plan its \<open>planId\<close> refers to (\<open>null\<close> when there is none).
\<close>

definition findUser :: "db \<Rightarrow> string \<Rightarrow> User option" where
  "findUser d uid = find (\<lambda>u. user_id u = uid) (users d)"

definition planOf :: "db \<Rightarrow> User \<Rightarrow> Plan option" where
  "planOf d u =
     (case user_planId u of
        None \<Rightarrow> None
      | Some pid \<Rightarrow> find (\<lambda>p. plan_id p = pid) (plans d))"

text \<open>
  Property access in JavaScript. \<open>planLimits[resource]\<close> finds the object's own entry
  if there is one (the last one, should a name be written twice), and otherwise goes to
  the prototype: for the names that \<open>Object.prototype\<close> defines the result is the
  inherited function (for \<open>__proto__\<close> the prototype object), and only for the others
  it is \<open>undefined\<close>. The JSON numbers are taken to be integers.
\<close>

definition objectPrototype :: "string list" where
  "objectPrototype =
     [''constructor'', ''__defineGetter__'', ''__defineSetter__'', ''hasOwnProperty'',
      ''__lookupGetter__'', ''__lookupSetter__'', ''isPrototypeOf'', ''propertyIsEnumerable'',
      ''toString'', ''valueOf'', ''__proto__'', ''toLocaleString'']"

definition ownProp :: "(string \<times> int) list \<Rightarrow> string \<Rightarrow> int option" where
  "ownProp obj key = map_of (rev obj) key"

definition getProp :: "(string \<times> int) list \<Rightarrow> string \<Rightarrow> jsval" where
  "getProp obj key =
     (case ownProp obj key of
        Some v \<Rightarrow> Num v
      | None \<Rightarrow> if key \<in> set objectPrototype then Inherited key else Undefined)"

text \<open>
  \<open>x || 0\<close> is 0 when \<open>x\<close> is \<open>undefined\<close> or 0, and \<open>x\<close> itself when it
  is another number or an object. \<open>limit !== -1\<close> is false for the number -1 only.
\<close>

definition orZero :: "jsval \<Rightarrow> jsval" where
  "orZero x =
     (case x of
        Undefined \<Rightarrow> Num 0
      | Num v \<Rightarrow> (if v = 0 then Num 0 else Num v)
      | Inherited k \<Rightarrow> Inherited k)"

definition strictNotEq :: "jsval \<Rightarrow> int \<Rightarrow> bool" where
  "strictNotEq x k = (case x of Num v \<Rightarrow> v \<noteq> k | _ \<Rightarrow> True)"

text \<open>
  \<open>used >= limit\<close>. Two numbers are compared as numbers. An inherited property is
  first turned into a string, its source text (\<open>[object Object]\<close> for the prototype
  object): against a number, or against \<open>undefined\<close>, that string is not a number and
  the comparison is false; two strings are compared in dictionary order of their
  characters, so a property compared with itself is \<open>>=\<close>.
\<close>

definition toPrimitive :: "string \<Rightarrow> string" where
  "toPrimitive key =
     (if key = ''__proto__'' then ''[object Object]''
      else if key = ''constructor'' then ''function Object() { [native code] }''
      else ''function '' @ key @ ''() { [native code] }'')"

fun stringLess :: "string \<Rightarrow> string \<Rightarrow> bool" where
  "stringLess [] [] = False"
| "stringLess [] (y # ys) = True"
| "stringLess (x # xs) [] = False"
| "stringLess (x # xs) (y # ys) =
     ((of_char x :: nat) < of_char y \<or> (x = y \<and> stringLess xs ys))"

definition greaterEq :: "jsval \<Rightarrow> jsval \<Rightarrow> bool" where
  "greaterEq a b =
     (case (a, b) of
        (Num x, Num y) \<Rightarrow> y \<le> x
      | (Inherited k, Inherited k') \<Rightarrow> \<not> stringLess (toPrimitive k) (toPrimitive k')
      | _ \<Rightarrow> False)"

text \<open>
  \<open>checkUsageLimit(resource)\<close> is an Express middleware: it either answers the request
  itself or calls \<open>next()\<close>, the rest of the handler chain, which is the parameter
  \<open>next\<close> here. It reads the store and never writes it.
\<close>

definition checkUsageLimit ::
  "string \<Rightarrow> string \<Rightarrow> (db \<Rightarrow> response \<times> db) \<Rightarrow> db \<Rightarrow> response \<times> db" where
  "checkUsageLimit resource uid next d =
     (case findUser d uid of
        None \<Rightarrow> (Response 403 (ErrorBody ''No active plan''), d)
      | Some user \<Rightarrow>
          (case planOf d user of
             None \<Rightarrow> (Response 403 (ErrorBody ''No active plan''), d)
           | Some plan \<Rightarrow>
               (let limit = getProp (plan_limits plan) resource;
                    used = orZero (getProp (user_quotaUsed user) resource)
                in if strictNotEq limit (- 1) \<and> greaterEq used limit
                   then (Response 403
                           (UsageLimitBody ''Usage limit exceeded'' resource limit used True), d)
                   else next d)))"


section \<open>What the routes take from outside the repository\<close>

text \<open>
  Functions that the routes call and the repository does not contain; they are
  parameters of what follows, and every theorem holds for each choice of them.
  \<^item> \<open>lib_trim\<close>, \<open>lib_isISO8601\<close>: the sanitizer \<open>trim()\<close> and the validator
    \<open>isISO8601()\<close> of express-validator.
  \<^item> \<open>lib_validateRequest\<close>: the middleware \<open>validateRequest\<close> of
    \<open>middleware/validation\<close>. It is told whether the validators of the route found an
    error, and either answers the request itself or passes it on (\<open>None\<close>).
  \<^item> \<open>lib_parseDate\<close>: \<open>new Date(string)\<close>, the time value in milliseconds, or
    \<open>None\<close> for an Invalid Date.
  \<^item> \<open>lib_storesDate\<close>: whether the database client and the database take a Date of
    this time value for a \<open>DateTime\<close> column. A write of a date that they do not take,
    as of an Invalid Date, throws.
\<close>

record Lib =
  lib_trim :: "string \<Rightarrow> string"
  lib_isISO8601 :: "string \<Rightarrow> bool"
  lib_validateRequest :: "bool \<Rightarrow> response option"
  lib_parseDate :: "string \<Rightarrow> int option"
  lib_storesDate :: "int \<Rightarrow> bool"

text \<open>
  \<open>new Date(number)\<close>: a Date holds a time value of at most 8.64e15 milliseconds
  either side of the epoch; beyond that, and for NaN (\<open>None\<close>), it is an Invalid Date
  (\<open>None\<close>). A Date that a write may hold is accepted when it is valid and the store
  takes it; a key that is absent is no obstacle.
\<close>

definition newDate :: "int option \<Rightarrow> int option" where
  "newDate x =
     (case x of
        None \<Rightarrow> None
      | Some ms \<Rightarrow>
          if - 8640000000000000 \<le> ms \<and> ms \<le> 8640000000000000 then Some ms else None)"

definition dateAccepted :: "Lib \<Rightarrow> int option option \<Rightarrow> bool" where
  "dateAccepted lib x =
     (case x of
        None \<Rightarrow> True
      | Some None \<Rightarrow> False
      | Some (Some ms) \<Rightarrow> lib_storesDate lib ms)"


section \<open>Status ingestion (routes/whatsapp.ts)\<close>

text \<open>
  One entry of \<open>statuses\<close> in a webhook body, which carries its \<open>id\<close>: the
  provider message id, the status word,
  \<open>parseInt(timestamp)\<close> (seconds; \<open>None\<close> when it is NaN) and
  \<open>errors?.[0]?.title\<close>. The product with 1000 is exact in the code's floating point
  wherever the result is a valid Date.
\<close>

record StatusCallback =
  s_id :: string
  s_status :: string
  s_timestamp :: "int option"
  s_errorTitle :: "string option"

text \<open>
  \<open>updateData\<close> starts as \<open>{}\<close>; the \<open>switch\<close> fills the keys of the status word it
  recognises, and leaves it empty for any other word. A date key, when present, holds
  the Date object, valid or not. \<open>title || 'Message failed'\<close> takes the default for a
  missing or empty title.
\<close>

record UpdateData =
  ud_status :: "MessageStatus option"
  ud_deliveredAt :: "int option option"
  ud_readAt :: "int option option"
  ud_errorMessage :: "string option"

definition emptyUpdate :: UpdateData where
  "emptyUpdate = \<lparr>ud_status = None, ud_deliveredAt = None, ud_readAt = None,
                   ud_errorMessage = None\<rparr>"

definition orDefault :: "string option \<Rightarrow> string \<Rightarrow> string" where
  "orDefault x dflt = (case x of None \<Rightarrow> dflt | Some v \<Rightarrow> (if v = [] then dflt else v))"

definition statusDate :: "StatusCallback \<Rightarrow> int option" where
  "statusDate cb = newDate (map_option (\<lambda>t. t * 1000) (s_timestamp cb))"

definition statusUpdateData :: "StatusCallback \<Rightarrow> UpdateData" where
  "statusUpdateData cb =
     (if s_status cb = ''delivered''
      then emptyUpdate\<lparr>ud_status := Some MSG_DELIVERED,
                       ud_deliveredAt := Some (statusDate cb)\<rparr>
      else if s_status cb = ''read''
      then emptyUpdate\<lparr>ud_status := Some MSG_READ,
                       ud_readAt := Some (statusDate cb)\<rparr>
      else if s_status cb = ''failed''
      then emptyUpdate\<lparr>ud_status := Some MSG_FAILED,
                       ud_errorMessage := Some (orDefault (s_errorTitle cb) ''Message failed'')\<rparr>
      else emptyUpdate)"

text \<open>Prisma writes the keys that \<open>data\<close> has and leaves the other columns alone.\<close>

definition applyUpdate :: "UpdateData \<Rightarrow> Message \<Rightarrow> Message" where
  "applyUpdate ud m =
     m\<lparr>m_status := (case ud_status ud of None \<Rightarrow> m_status m | Some v \<Rightarrow> v),
       m_deliveredAt := (case ud_deliveredAt ud of Some (Some v) \<Rightarrow> Some v
                         | _ \<Rightarrow> m_deliveredAt m),
       m_readAt := (case ud_readAt ud of Some (Some v) \<Rightarrow> Some v | _ \<Rightarrow> m_readAt m),
       m_errorMessage := (case ud_errorMessage ud of None \<Rightarrow> m_errorMessage m
                          | Some v \<Rightarrow> Some v)\<rparr>"

text \<open>
  \<open>handleMessageStatus(status)\<close>:
  \<open>prisma.message.updateMany({ where: { whatsappMessageId: id }, data: updateData })\<close>
  inside \<open>try\<close>. With a date in \<open>data\<close> that is not accepted the call throws, the
  \<open>catch\<close> logs it, and nothing is written. No other table is written.
\<close>

definition handleMessageStatus :: "Lib \<Rightarrow> StatusCallback \<Rightarrow> db \<Rightarrow> db" where
  "handleMessageStatus lib cb d =
     (let updateData = statusUpdateData cb
      in if dateAccepted lib (ud_deliveredAt updateData) \<and> dateAccepted lib (ud_readAt updateData)
         then d\<lparr>messages := map (\<lambda>m. if m_whatsappMessageId m = Some (s_id cb)
                                        then applyUpdate updateData m else m) (messages d)\<rparr>
         else d)"


section \<open>Campaign routes and dispatch worker (the campaign router in routes/retarget.ts)\<close>

text \<open>
  A Prisma write either returns or throws; what was written before a throw stays written.
  \<open>Done d\<close> is the store after a call that returned, \<open>Thrown d\<close> the store at the
  moment an exception left the block. \<open>update\<close> on a unique key throws when no row has
  the key, and writes the row that has it (every such row here; the keys are unique in
  the schema). The store itself is reliable: a call fails only for a reason the store
  determines, or, inside the worker's per-contact \<open>try\<close>, when the attempt for that
  recipient is one that fails.
\<close>

datatype outcome = Done db | Thrown db

definition andThen :: "outcome \<Rightarrow> (db \<Rightarrow> outcome) \<Rightarrow> outcome" where
  "andThen r f = (case r of Done d \<Rightarrow> f d | Thrown d \<Rightarrow> Thrown d)"

definition message_create :: "Message \<Rightarrow> db \<Rightarrow> outcome" where
  "message_create m d = Done (d\<lparr>messages := messages d @ [m]\<rparr>)"

definition campaign_update :: "string \<Rightarrow> (Campaign \<Rightarrow> Campaign) \<Rightarrow> db \<Rightarrow> outcome" where
  "campaign_update cid f d =
     (if cid \<in> c_id ` set (campaigns d)
      then Done (d\<lparr>campaigns := map (\<lambda>c. if c_id c = cid then f c else c) (campaigns d)\<rparr>)
      else Thrown d)"

definition rowKey :: "CampaignContact \<Rightarrow> string \<times> string" where
  "rowKey r = (cc_campaignId r, cc_contactId r)"

definition campaignContact_update ::
  "string \<Rightarrow> string \<Rightarrow> (CampaignContact \<Rightarrow> CampaignContact) \<Rightarrow> db \<Rightarrow> outcome" where
  "campaignContact_update cid ctid f d =
     (if (cid, ctid) \<in> rowKey ` set (campaignContacts d)
      then Done (d\<lparr>campaignContacts :=
                    map (\<lambda>r. if rowKey r = (cid, ctid) then f r else r) (campaignContacts d)\<rparr>)
      else Thrown d)"

definition campaignContact_countPending :: "string \<Rightarrow> db \<Rightarrow> nat" where
  "campaignContact_countPending cid d =
     length (filter (\<lambda>r. cc_campaignId r = cid \<and> cc_status r = CC_PENDING)
               (campaignContacts d))"

text \<open>
  \<open>prisma.campaign.findFirst({ where: { id, userId } })\<close>, and the relations that
  \<open>include\<close> loads with it in the start route: the campaign's contact rows and its
  template.
\<close>

definition findCampaign :: "db \<Rightarrow> string \<Rightarrow> string \<Rightarrow> Campaign option" where
  "findCampaign d cid uid = find (\<lambda>c. c_id c = cid \<and> c_userId c = uid) (campaigns d)"

definition contactsOf :: "db \<Rightarrow> string \<Rightarrow> CampaignContact list" where
  "contactsOf d cid = filter (\<lambda>r. cc_campaignId r = cid) (campaignContacts d)"

definition templateOf :: "db \<Rightarrow> Campaign \<Rightarrow> Template option" where
  "templateOf d c =
     (case c_templateId c of
        None \<Rightarrow> None
      | Some tid \<Rightarrow> find (\<lambda>t. t_id t = tid) (templates d))"

record Snapshot =
  snap_campaign :: Campaign
  snap_contacts :: "CampaignContact list"
  snap_template :: "Template option"

text \<open>
  The handler of \<open>PUT /:id\<close>, the last function of the route's chain, on a body as the
  chain hands it over: \<open>name\<close> as the sanitizer left it, and \<open>scheduledAt\<close> either
  absent or empty (\<open>None\<close>) or a string that \<open>new Date\<close> turns into a date the store
  takes (its time value). A key that the request body leaves out is \<open>undefined\<close> and
  Prisma does not write it; \<open>scheduledAt\<close> and \<open>status\<close> are always written.
\<close>

definition editCampaign ::
  "string option \<Rightarrow> string option \<Rightarrow> int option \<Rightarrow> Campaign \<Rightarrow> Campaign" where
  "editCampaign name description scheduledAt c =
     c\<lparr>c_name := (case name of None \<Rightarrow> c_name c | Some n \<Rightarrow> n),
       c_description := (case description of None \<Rightarrow> c_description c | Some x \<Rightarrow> Some x),
       c_scheduledAt := scheduledAt,
       c_status := (if scheduledAt \<noteq> None then SCHEDULED else DRAFT)\<rparr>"

definition updateCampaign ::
  "string \<Rightarrow> string \<Rightarrow> string option \<Rightarrow> string option \<Rightarrow> int option \<Rightarrow> db
     \<Rightarrow> response \<times> db" where
  "updateCampaign cid uid name description scheduledAt d =
     (case findCampaign d cid uid of
        None \<Rightarrow> (Response 404 (ErrorBody ''Campaign not found''), d)
      | Some campaign \<Rightarrow>
          if c_status campaign = RUNNING \<or> c_status campaign = COMPLETED
          then (Response 400 (ErrorBody ''Cannot edit running or completed campaign''), d)
          else (case campaign_update cid (editCampaign name description scheduledAt) d of
                  Done d' \<Rightarrow>
                    (Response 200
                       (CampaignBody (editCampaign name description scheduledAt campaign)), d')
                | Thrown d' \<Rightarrow> (Response 500 (ErrorBody ''Failed to update campaign''), d')))"

text \<open>
  \<open>PUT /:id\<close> as a whole. The chain is
  \<open>body('name').optional().trim().isLength({ min: 1 })\<close>,
  \<open>body('scheduledAt').optional().isISO8601()\<close>, \<open>validateRequest\<close>, handler.
  \<open>optional()\<close> skips a field that is \<open>undefined\<close>; \<open>trim()\<close> rewrites the name
  in the body, so the handler sees it trimmed; the two checks record an error each when
  they fail. The handler writes \<open>scheduledAt ? new Date(scheduledAt) : null\<close>: with a
  non-empty string that is no date the store takes, its \<open>update\<close> throws, after the
  lookup and the status guard, and the answer is 500.
\<close>

definition editErrors :: "Lib \<Rightarrow> string option \<Rightarrow> string option \<Rightarrow> bool" where
  "editErrors lib name scheduledAt \<longleftrightarrow>
     (case name of None \<Rightarrow> False | Some n \<Rightarrow> length (lib_trim lib n) < 1)
   \<or> (case scheduledAt of None \<Rightarrow> False | Some s \<Rightarrow> \<not> lib_isISO8601 lib s)"

definition scheduleDate :: "Lib \<Rightarrow> string option \<Rightarrow> int option option" where
  "scheduleDate lib scheduledAt =
     (case scheduledAt of
        None \<Rightarrow> Some None
      | Some s \<Rightarrow>
          if s = [] then Some None
          else (case lib_parseDate lib s of
                  None \<Rightarrow> None
                | Some t \<Rightarrow> if lib_storesDate lib t then Some (Some t) else None))"

definition putCampaign ::
  "Lib \<Rightarrow> string \<Rightarrow> string \<Rightarrow> string option \<Rightarrow> string option \<Rightarrow> string option \<Rightarrow> db
     \<Rightarrow> response \<times> db" where
  "putCampaign lib cid uid name description scheduledAt d =
     (case lib_validateRequest lib (editErrors lib name scheduledAt) of
        Some refusal \<Rightarrow> (refusal, d)
      | None \<Rightarrow>
          (case scheduleDate lib scheduledAt of
             Some date \<Rightarrow>
               updateCampaign cid uid (map_option (lib_trim lib) name) description date d
           | None \<Rightarrow>
               (case findCampaign d cid uid of
                  None \<Rightarrow> (Response 404 (ErrorBody ''Campaign not found''), d)
                | Some campaign \<Rightarrow>
                    if c_status campaign = RUNNING \<or> c_status campaign = COMPLETED
                    then (Response 400
                            (ErrorBody ''Cannot edit running or completed campaign''), d)
                    else (Response 500 (ErrorBody ''Failed to update campaign''), d))))"

text \<open>\<open>POST /:id/pause\<close>.\<close>

definition pauseCampaign :: "string \<Rightarrow> string \<Rightarrow> db \<Rightarrow> response \<times> db" where
  "pauseCampaign cid uid d =
     (case findCampaign d cid uid of
        None \<Rightarrow> (Response 404 (ErrorBody ''Campaign not found''), d)
      | Some campaign \<Rightarrow>
          if c_status campaign \<noteq> RUNNING
          then (Response 400 (ErrorBody ''Campaign is not running''), d)
          else (case campaign_update cid (\<lambda>c. c\<lparr>c_status := PAUSED\<rparr>) d of
                  Done d' \<Rightarrow> (Response 200 (MessageBody ''Campaign paused successfully''), d')
                | Thrown d' \<Rightarrow> (Response 500 (ErrorBody ''Failed to pause campaign''), d')))"

text \<open>
  The dispatch worker, \<open>processCampaignMessages(campaign)\<close>. For each of the first five
  contact rows of the snapshot, the \<open>try\<close> block creates the message record, marks the
  row SENT and increments \<open>sentCount\<close>; no gateway is called and no quota is read. An
  \<open>attempt\<close> says whether the block runs through for that recipient or which of its three
  calls throws. The \<open>catch\<close> block marks the row FAILED and increments \<open>failedCount\<close>.
\<close>

datatype attempt = Succeeds | FailsAtMessageCreate | FailsAtContactUpdate | FailsAtCounterUpdate

definition campaignMessage :: "Snapshot \<Rightarrow> CampaignContact \<Rightarrow> Message" where
  "campaignMessage snap cc =
     \<lparr>m_userId = c_userId (snap_campaign snap),
      m_whatsappAccountId = c_whatsappAccountId (snap_campaign snap),
      m_contactId = cc_contactId cc,
      m_campaignId = Some (c_id (snap_campaign snap)),
      m_templateId = c_templateId (snap_campaign snap),
      m_direction = OUTBOUND, m_type = TEMPLATE,
      m_content = orDefault (map_option t_name (snap_template snap)) ''Campaign message'',
      m_status = MSG_SENT, m_whatsappMessageId = None, m_errorMessage = None,
      m_deliveredAt = None, m_readAt = None\<rparr>"

definition sendAttempt :: "Snapshot \<Rightarrow> CampaignContact \<Rightarrow> int \<Rightarrow> attempt \<Rightarrow> db \<Rightarrow> outcome" where
  "sendAttempt snap cc now a d =
     (if a = FailsAtMessageCreate then Thrown d
      else andThen (message_create (campaignMessage snap cc) d) (\<lambda>d1.
        if a = FailsAtContactUpdate then Thrown d1
        else andThen (campaignContact_update (c_id (snap_campaign snap)) (cc_contactId cc)
                        (\<lambda>r. r\<lparr>cc_status := CC_SENT, cc_sentAt := Some now\<rparr>) d1) (\<lambda>d2.
          if a = FailsAtCounterUpdate then Thrown d2
          else campaign_update (c_id (snap_campaign snap))
                 (\<lambda>c. c\<lparr>c_sentCount := c_sentCount c + 1\<rparr>) d2)))"

definition recordFailure :: "Snapshot \<Rightarrow> CampaignContact \<Rightarrow> int \<Rightarrow> db \<Rightarrow> outcome" where
  "recordFailure snap cc now d =
     andThen (campaignContact_update (c_id (snap_campaign snap)) (cc_contactId cc)
                (\<lambda>r. r\<lparr>cc_status := CC_FAILED, cc_failedAt := Some now,
                        cc_errorMessage := Some ''Failed to send message''\<rparr>) d) (\<lambda>d1.
       campaign_update (c_id (snap_campaign snap))
         (\<lambda>c. c\<lparr>c_failedCount := c_failedCount c + 1\<rparr>) d1)"

definition processContact :: "Snapshot \<Rightarrow> CampaignContact \<Rightarrow> int \<Rightarrow> attempt \<Rightarrow> db \<Rightarrow> outcome" where
  "processContact snap cc now a d =
     (case sendAttempt snap cc now a d of
        Done d' \<Rightarrow> Done d'
      | Thrown d' \<Rightarrow> recordFailure snap cc now d')"

text \<open>
  The \<open>for\<close> loop; the \<open>k\<close>-th attempt belongs to the \<open>k\<close>-th row, and a row beyond the
  end of the list of attempts is one whose attempt succeeds. An exception that leaves the
  \<open>catch\<close> block ends the loop.
\<close>

fun processContacts ::
  "Snapshot \<Rightarrow> CampaignContact list \<Rightarrow> int \<Rightarrow> attempt list \<Rightarrow> db \<Rightarrow> outcome" where
  "processContacts snap [] now as d = Done d"
| "processContacts snap (cc # ccs) now as d =
     (case processContact snap cc now (case as of [] \<Rightarrow> Succeeds | a # _ \<Rightarrow> a) d of
        Done d' \<Rightarrow> processContacts snap ccs now (tl as) d'
      | Thrown d' \<Rightarrow> Thrown d')"

definition markCompleted :: "Snapshot \<Rightarrow> int \<Rightarrow> db \<Rightarrow> outcome" where
  "markCompleted snap now d =
     (if campaignContact_countPending (c_id (snap_campaign snap)) d = 0
      then campaign_update (c_id (snap_campaign snap))
             (\<lambda>c. c\<lparr>c_status := COMPLETED, c_completedAt := Some now\<rparr>) d
      else Done d)"

definition processCampaignMessages :: "Snapshot \<Rightarrow> int \<Rightarrow> attempt list \<Rightarrow> db \<Rightarrow> db" where
  "processCampaignMessages snap now as d =
     (case andThen (processContacts snap (take 5 (snap_contacts snap)) now as d)
             (markCompleted snap now) of
        Done d' \<Rightarrow> d'
      | Thrown d' \<Rightarrow>
          (case campaign_update (c_id (snap_campaign snap)) (\<lambda>c. c\<lparr>c_status := FAILED\<rparr>) d' of
             Done d'' \<Rightarrow> d''
           | Thrown d'' \<Rightarrow> d''))"

text \<open>
  \<open>POST /:id/start\<close>. The route loads the campaign with its rows and template, writes
  RUNNING, calls the worker without awaiting it and answers. Requests are taken one at a
  time here: the worker has run to its end before the next operation is looked at.
\<close>

definition startCampaign ::
  "string \<Rightarrow> string \<Rightarrow> int \<Rightarrow> attempt list \<Rightarrow> db \<Rightarrow> response \<times> db" where
  "startCampaign cid uid now as d =
     (case findCampaign d cid uid of
        None \<Rightarrow> (Response 404 (ErrorBody ''Campaign not found''), d)
      | Some campaign \<Rightarrow>
          if c_status campaign \<noteq> DRAFT \<and> c_status campaign \<noteq> SCHEDULED
          then (Response 400 (ErrorBody ''Campaign cannot be started''), d)
          else (case campaign_update cid (\<lambda>c. c\<lparr>c_status := RUNNING, c_startedAt := Some now\<rparr>) d of
                  Done d' \<Rightarrow>
                    (Response 200 (MessageBody ''Campaign started successfully''),
                     processCampaignMessages
                       \<lparr>snap_campaign = campaign, snap_contacts = contactsOf d cid,
                        snap_template = templateOf d campaign\<rparr> now as d')
                | Thrown d' \<Rightarrow> (Response 500 (ErrorBody ''Failed to start campaign''), d')))"

text \<open>
  The operations that reach a campaign from outside, and a run of them. An edit is the
  request as it arrives at \<open>PUT /:id\<close>.
\<close>

datatype operation =
    Start string string int "attempt list"
  | Pause string string
  | Edit string string "string option" "string option" "string option"
  | Ingest StatusCallback

fun perform :: "Lib \<Rightarrow> operation \<Rightarrow> db \<Rightarrow> db" where
  "perform lib (Start cid uid now as) d = snd (startCampaign cid uid now as d)"
| "perform lib (Pause cid uid) d = snd (pauseCampaign cid uid d)"
| "perform lib (Edit cid uid name description scheduledAt) d =
     snd (putCampaign lib cid uid name description scheduledAt d)"
| "perform lib (Ingest cb) d = handleMessageStatus lib cb d"

fun performAll :: "Lib \<Rightarrow> operation list \<Rightarrow> db \<Rightarrow> db" where
  "performAll lib [] d = d"
| "performAll lib (op # ops) d = performAll lib ops (perform lib op d)"

text \<open>
  Whether an operation, in a store, is a start of campaign \<open>cid\<close> that the route
  accepts, so that the worker runs (1) or not (0); and the number of runs of the worker
  for \<open>cid\<close> in a run of operations from a store.
\<close>

definition startedBy :: "string \<Rightarrow> operation \<Rightarrow> db \<Rightarrow> nat" where
  "startedBy cid op d =
     (case op of
        Start cid' uid now as \<Rightarrow>
          if cid' = cid
             \<and> fst (startCampaign cid' uid now as d)
                 = Response 200 (MessageBody ''Campaign started successfully'')
          then 1 else 0
      | _ \<Rightarrow> 0)"

fun workerRuns :: "Lib \<Rightarrow> string \<Rightarrow> operation list \<Rightarrow> db \<Rightarrow> nat" where
  "workerRuns lib cid [] d = 0"
| "workerRuns lib cid (op # ops) d =
     startedBy cid op d + workerRuns lib cid ops (perform lib op d)"

section \<open>Notions used in the statements and proofs\<close>

text \<open>
  The attempt that belongs to the \<open>i\<close>-th row of a run of the worker (a row beyond
  the end of the list is one whose attempt succeeds), and the number of attempts that
  succeed among the first \<open>n\<close>; \<open>sentOf\<close> follows the worker's loop.
\<close>

definition attemptAt :: "attempt list \<Rightarrow> nat \<Rightarrow> attempt" where
  "attemptAt as i = (if i < length as then as ! i else Succeeds)"

fun sentOf :: "nat \<Rightarrow> attempt list \<Rightarrow> nat" where
  "sentOf 0 as = 0"
| "sentOf (Suc n) as =
     (if (case as of [] \<Rightarrow> Succeeds | a # _ \<Rightarrow> a) = Succeeds then 1 else 0) + sentOf n (tl as)"

text \<open>
  A store as the create route leaves it: every campaign has its four counters at 0 and
  \<open>totalContacts\<close> equal to the number of its contact rows.
\<close>

definition freshCounters :: "db \<Rightarrow> bool" where
  "freshCounters d \<longleftrightarrow>
     (\<forall>c \<in> set (campaigns d).
        c_sentCount c = 0 \<and> c_failedCount c = 0
      \<and> c_deliveredCount c = 0 \<and> c_readCount c = 0
      \<and> c_totalContacts c = int (length (contactsOf d (c_id c))))"

text \<open>
  The store that an outcome carries. \<open>campStep cid n\<close> bounds what a run of the worker
  for campaign \<open>cid\<close> over \<open>n\<close> rows does to a campaign row: nothing to another
  campaign; for \<open>cid\<close> the identity, the owner, \<open>totalContacts\<close>,
  \<open>deliveredCount\<close> and \<open>readCount\<close> stay, the two other counters do not fall and
  their sum rises by at most \<open>n\<close>, and the status stays or becomes COMPLETED or FAILED.
  \<open>workerStep\<close> adds that the keys of the contact rows and the user, plan and template
  tables stay. \<open>grow\<close> and \<open>opStep\<close> are the same bound for one operation,
  \<open>counted k\<close> the invariant it maintains, with \<open>k\<close> the number of runs of the
  worker so far.
\<close>

primrec stateOf :: "outcome \<Rightarrow> db" where
  "stateOf (Done d) = d"
| "stateOf (Thrown d) = d"

definition campStep :: "string \<Rightarrow> nat \<Rightarrow> Campaign \<Rightarrow> Campaign \<Rightarrow> bool" where
  "campStep cid n c c' \<longleftrightarrow>
     (if c_id c = cid
      then c_id c' = c_id c \<and> c_userId c' = c_userId c
         \<and> c_totalContacts c' = c_totalContacts c
         \<and> c_deliveredCount c' = c_deliveredCount c \<and> c_readCount c' = c_readCount c
         \<and> c_sentCount c \<le> c_sentCount c' \<and> c_failedCount c \<le> c_failedCount c'
         \<and> c_sentCount c' + c_failedCount c' \<le> c_sentCount c + c_failedCount c + int n
         \<and> (c_status c' = c_status c \<or> c_status c' = COMPLETED \<or> c_status c' = FAILED)
      else c' = c)"

definition workerStep :: "string \<Rightarrow> nat \<Rightarrow> db \<Rightarrow> db \<Rightarrow> bool" where
  "workerStep cid n d d' \<longleftrightarrow>
     list_all2 (campStep cid n) (campaigns d) (campaigns d')
   \<and> map rowKey (campaignContacts d') = map rowKey (campaignContacts d)
   \<and> users d' = users d \<and> plans d' = plans d \<and> templates d' = templates d"

definition grow :: "nat \<Rightarrow> Campaign \<Rightarrow> Campaign \<Rightarrow> bool" where
  "grow n c c' \<longleftrightarrow>
     c_id c' = c_id c \<and> c_userId c' = c_userId c
   \<and> c_totalContacts c' = c_totalContacts c
   \<and> c_deliveredCount c' = c_deliveredCount c \<and> c_readCount c' = c_readCount c
   \<and> c_sentCount c \<le> c_sentCount c' \<and> c_failedCount c \<le> c_failedCount c'
   \<and> c_sentCount c' + c_failedCount c' \<le> c_sentCount c + c_failedCount c + int n"

definition opStep :: "operation \<Rightarrow> db \<Rightarrow> Campaign \<Rightarrow> Campaign \<Rightarrow> bool" where
  "opStep op d c c' \<longleftrightarrow>
     grow (startedBy (c_id c) op d * min 5 (length (contactsOf d (c_id c)))) c c'"

definition counted :: "(string \<Rightarrow> nat) \<Rightarrow> db \<Rightarrow> bool" where
  "counted k d \<longleftrightarrow>
     (\<forall>c \<in> set (campaigns d).
        c_deliveredCount c = 0 \<and> c_readCount c = 0
      \<and> 0 \<le> c_sentCount c \<and> 0 \<le> c_failedCount c
      \<and> c_totalContacts c = int (length (contactsOf d (c_id c)))
      \<and> c_sentCount c + c_failedCount c \<le> min 5 (c_totalContacts c) * int (k (c_id c)))"

text \<open>
  What the worker makes of a contact row and of a campaign row: the row after its attempt,
  the campaign after \<open>s\<close> successes and \<open>f\<close> failures, and the relation between a
  contact row before and after a run over the rows \<open>ccs\<close> (a row of another key is
  untouched, the row of the \<open>i\<close>-th key carries the \<open>i\<close>-th attempt).
\<close>

definition rowAfter :: "int \<Rightarrow> attempt \<Rightarrow> CampaignContact \<Rightarrow> CampaignContact" where
  "rowAfter now a r =
     (case a of
        Succeeds \<Rightarrow> r\<lparr>cc_status := CC_SENT, cc_sentAt := Some now\<rparr>
      | FailsAtCounterUpdate \<Rightarrow>
          r\<lparr>cc_status := CC_FAILED, cc_sentAt := Some now, cc_failedAt := Some now,
            cc_errorMessage := Some ''Failed to send message''\<rparr>
      | _ \<Rightarrow> r\<lparr>cc_status := CC_FAILED, cc_failedAt := Some now,
               cc_errorMessage := Some ''Failed to send message''\<rparr>)"

definition campAfter :: "nat \<Rightarrow> nat \<Rightarrow> Campaign \<Rightarrow> Campaign" where
  "campAfter s f x = x\<lparr>c_sentCount := c_sentCount x + int s,
                        c_failedCount := c_failedCount x + int f\<rparr>"

definition rowRel ::
  "string \<Rightarrow> int \<Rightarrow> CampaignContact list \<Rightarrow> attempt list
     \<Rightarrow> CampaignContact \<Rightarrow> CampaignContact \<Rightarrow> bool" where
  "rowRel cid now ccs as r r' \<longleftrightarrow>
     (rowKey r \<notin> (\<lambda>cc. (cid, cc_contactId cc)) ` set ccs \<longrightarrow> r' = r)
   \<and> (\<forall>i < length ccs. rowKey r = (cid, cc_contactId (ccs ! i))
          \<longrightarrow> r' = rowAfter now (attemptAt as i) r)"

section \<open>Example stores\<close>

text \<open>
  A plan with a messages limit of 5, and a tenant who has used all 5.
\<close>

definition freePlan :: Plan where
  "freePlan = \<lparr>plan_id = ''p1'', plan_name = ''Free'', plan_features = [''retargeting''],
               plan_limits = [(''messages'', 5), (''contacts'', - 1)]\<rparr>"

definition alice :: User where
  "alice = \<lparr>user_id = ''u1'', user_planId = Some ''p1'',
            user_quotaUsed = [(''messages'', 5)]\<rparr>"

definition quotaDb :: db where
  "quotaDb = \<lparr>users = [alice], plans = [freePlan], templates = [], campaigns = [],
              campaignContacts = [], messages = []\<rparr>"

text \<open>An outbound message that the provider knows as \<open>wamid.1\<close>, and three callbacks for it.\<close>

definition msg1 :: Message where
  "msg1 = \<lparr>m_userId = ''u1'', m_whatsappAccountId = ''wa1'', m_contactId = ''ct1'',
           m_campaignId = None, m_templateId = None, m_direction = OUTBOUND, m_type = TEXT,
           m_content = ''Hi'', m_status = MSG_SENT, m_whatsappMessageId = Some ''wamid.1'',
           m_errorMessage = None, m_deliveredAt = None, m_readAt = None\<rparr>"

definition msgDb :: db where
  "msgDb = \<lparr>users = [alice], plans = [freePlan], templates = [], campaigns = [],
            campaignContacts = [], messages = [msg1]\<rparr>"

definition cbDelivered :: StatusCallback where
  "cbDelivered = \<lparr>s_id = ''wamid.1'', s_status = ''delivered'', s_timestamp = Some 100,
                  s_errorTitle = None\<rparr>"

definition cbRead :: StatusCallback where
  "cbRead = \<lparr>s_id = ''wamid.1'', s_status = ''read'', s_timestamp = Some 200,
             s_errorTitle = None\<rparr>"

definition cbFailed :: StatusCallback where
  "cbFailed = \<lparr>s_id = ''wamid.1'', s_status = ''failed'', s_timestamp = Some 300,
               s_errorTitle = Some ''Undeliverable''\<rparr>"

text \<open>
  One choice of the outside functions: \<open>trim\<close> takes the blanks off both ends, one
  ISO 8601 string is known and parses to its date, \<open>validateRequest\<close> answers 400 when
  there is an error, and the store takes the dates of the years 1970 to 9999.
\<close>

definition trimBlanks :: "string \<Rightarrow> string" where
  "trimBlanks s =
     rev (dropWhile (\<lambda>c. c = CHR '' '') (rev (dropWhile (\<lambda>c. c = CHR '' '') s)))"

definition exampleLib :: Lib where
  "exampleLib =
     \<lparr>lib_trim = trimBlanks,
      lib_isISO8601 = (\<lambda>s. s = ''2030-01-01T00:00:00Z''),
      lib_validateRequest =
        (\<lambda>errors. if errors then Some (Response 400 (ErrorBody ''Validation failed''))
                   else None),
      lib_parseDate = (\<lambda>s. if s = ''2030-01-01T00:00:00Z'' then Some 1893456000000 else None),
      lib_storesDate = (\<lambda>t. 0 \<le> t \<and> t \<le> 253402300799999)\<rparr>"

text \<open>The same with a \<open>validateRequest\<close> that passes every request on.\<close>

definition laxLib :: Lib where
  "laxLib = exampleLib\<lparr>lib_validateRequest := (\<lambda>errors. None)\<rparr>"

text \<open>A \<open>read\<close> callback whose timestamp is beyond the range of a Date.\<close>

definition cbReadLate :: StatusCallback where
  "cbReadLate = \<lparr>s_id = ''wamid.1'', s_status = ''read'', s_timestamp = Some 8640000000001,
                 s_errorTitle = None\<rparr>"

text \<open>A downstream handler that records a message and answers 200.\<close>

definition sendOne :: "db \<Rightarrow> response \<times> db" where
  "sendOne d = (Response 200 (MessageBody ''sent''), d\<lparr>messages := messages d @ [msg1]\<rparr>)"

text \<open>
  A plan that meters a resource called \<open>toString\<close> with limit 0, and a tenant on it
  with nothing recorded.
\<close>

definition strictPlan :: Plan where
  "strictPlan = \<lparr>plan_id = ''p2'', plan_name = ''Strict'', plan_features = [],
                 plan_limits = [(''toString'', 0)]\<rparr>"

definition bob :: User where
  "bob = \<lparr>user_id = ''u2'', user_planId = Some ''p2'', user_quotaUsed = []\<rparr>"

definition protoDb :: db where
  "protoDb = \<lparr>users = [bob], plans = [strictPlan], templates = [], campaigns = [],
              campaignContacts = [], messages = []\<rparr>"

text \<open>
  Campaign \<open>c1\<close> of that tenant: as created with six pending contacts, and alone in a
  given status; and three runs of operations on it.
\<close>

definition pendingRow :: "string \<Rightarrow> string \<Rightarrow> CampaignContact" where
  "pendingRow cid ctid =
     \<lparr>cc_campaignId = cid, cc_contactId = ctid, cc_status = CC_PENDING, cc_sentAt = None,
      cc_deliveredAt = None, cc_readAt = None, cc_failedAt = None, cc_errorMessage = None\<rparr>"

definition newCampaign :: "string \<Rightarrow> string \<Rightarrow> CampaignStatus \<Rightarrow> int \<Rightarrow> Campaign" where
  "newCampaign cid uid st n =
     \<lparr>c_id = cid, c_userId = uid, c_whatsappAccountId = ''wa1'', c_templateId = None,
      c_name = ''Launch'', c_description = None, c_status = st, c_scheduledAt = None,
      c_startedAt = None, c_completedAt = None, c_totalContacts = n, c_sentCount = 0,
      c_deliveredCount = 0, c_readCount = 0, c_failedCount = 0\<rparr>"

definition sixDb :: db where
  "sixDb = \<lparr>users = [alice], plans = [freePlan], templates = [],
            campaigns = [newCampaign ''c1'' ''u1'' DRAFT 6],
            campaignContacts = map (pendingRow ''c1'') [''a'', ''b'', ''c'', ''d'', ''e'', ''f''],
            messages = []\<rparr>"

definition campaignIn :: "CampaignStatus \<Rightarrow> db" where
  "campaignIn st = \<lparr>users = [alice], plans = [freePlan], templates = [],
                    campaigns = [newCampaign ''c1'' ''u1'' st 0],
                    campaignContacts = [], messages = []\<rparr>"

definition restartOps :: "operation list" where
  "restartOps = [Start ''c1'' ''u1'' 10 [], Pause ''c1'' ''u1'',
                 Edit ''c1'' ''u1'' None None None, Start ''c1'' ''u1'' 20 []]"

definition onceOps :: "operation list" where
  "onceOps = [Start ''c1'' ''u1'' 10 [Succeeds, FailsAtMessageCreate], Ingest cbDelivered,
              Pause ''c1'' ''u1'']"

definition twiceOps :: "operation list" where
  "twiceOps = [Start ''c1'' ''u1'' 10 [], Start ''c1'' ''u1'' 20 []]"

section \<open>Quota ledger: theorems\<close>

lemma stringLess_irrefl: "\<not> stringLess s s"
  by (induction s) auto

lemma getProp_own: "ownProp obj key = Some v \<Longrightarrow> getProp obj key = Num v"
  by (simp add: getProp_def)

lemma getProp_ordinary:
  "ownProp obj key = None \<Longrightarrow> key \<notin> set objectPrototype \<Longrightarrow> getProp obj key = Undefined"
  by (simp add: getProp_def)

lemma getProp_inherited:
  "ownProp obj key = None \<Longrightarrow> key \<in> set objectPrototype \<Longrightarrow> getProp obj key = Inherited key"
  by (simp add: getProp_def)

lemma findUser_quotaDb: "findUser quotaDb ''u1'' = Some alice"
  by (simp add: findUser_def quotaDb_def alice_def)

lemma planOf_quotaDb: "planOf quotaDb alice = Some freePlan"
  by (simp add: planOf_def quotaDb_def alice_def freePlan_def)

lemma toString_inherited: "''toString'' \<in> set objectPrototype"
  by (simp add: objectPrototype_def)

text \<open>
  C1, as the claim has it, fails for a resource whose name \<open>Object.prototype\<close> defines.
  The plan limit for \<open>toString\<close> is 0 and the tenant has no usage recorded under it,
  so the recorded usage, 0, is at least the limit; but the check reads the inherited
  function as \<open>used\<close>, the comparison with 0 is false, and the request goes on to the
  rest of the chain.
\<close>

theorem usage_at_limit_rejected_counterexample:
  "ownProp (plan_limits strictPlan) ''toString'' = Some 0
   \<and> ownProp (user_quotaUsed bob) ''toString'' = None
   \<and> checkUsageLimit ''toString'' ''u2'' sendOne protoDb = sendOne protoDb
   \<and> fst (checkUsageLimit ''toString'' ''u2'' sendOne protoDb)
       = Response 200 (MessageBody ''sent'')"
  by (simp add: checkUsageLimit_def findUser_def planOf_def protoDb_def bob_def strictPlan_def
      getProp_def ownProp_def objectPrototype_def orZero_def strictNotEq_def greaterEq_def
      sendOne_def)

text \<open>
  C1, amended. A tenant with a plan whose limit for the resource is a finite \<open>L\<close> (an
  entry of the plan's limits, not \<open>-1\<close>) and whose recorded usage \<open>u\<close> is at least
  \<open>L\<close>, where the usage is the tenant's entry for the resource, or 0 when there is no
  entry and the resource is not a name that \<open>Object.prototype\<close> defines, is rejected by
  the usage-limit check: the answer is 403 "Usage limit exceeded" with the fields
  resource, limit and used (and \<open>upgradeRequired\<close>), the rest of the handler chain is
  not run, and the store, so the tenant's recorded usage too, is what it was.
\<close>

theorem checkUsageLimit_rejects:
  assumes "findUser d uid = Some user" and "planOf d user = Some plan"
    and "ownProp (plan_limits plan) resource = Some L" and "L \<noteq> - 1"
    and "ownProp (user_quotaUsed user) resource = Some u
         \<or> (ownProp (user_quotaUsed user) resource = None
            \<and> resource \<notin> set objectPrototype \<and> u = 0)"
    and "L \<le> u"
  shows "checkUsageLimit resource uid next d =
           (Response 403 (UsageLimitBody ''Usage limit exceeded'' resource (Num L) (Num u) True),
            d)
         \<and> snd (checkUsageLimit resource uid next d) = d"
proof -
  have l: "getProp (plan_limits plan) resource = Num L"
    by (rule getProp_own [OF assms(3)])
  have u: "orZero (getProp (user_quotaUsed user) resource) = Num u"
    using assms(5)
  proof
    assume "ownProp (user_quotaUsed user) resource = Some u"
    then show ?thesis by (simp add: getProp_own orZero_def)
  next
    assume "ownProp (user_quotaUsed user) resource = None
            \<and> resource \<notin> set objectPrototype \<and> u = 0"
    then show ?thesis by (simp add: getProp_ordinary orZero_def)
  qed
  show ?thesis
    using assms(1,2,4,6)
    by (simp add: checkUsageLimit_def l u strictNotEq_def greaterEq_def Let_def)
qed

theorem checkUsageLimit_rejects_witness:
  "checkUsageLimit ''messages'' ''u1'' sendOne quotaDb =
     (Response 403 (UsageLimitBody ''Usage limit exceeded'' ''messages'' (Num 5) (Num 5) True),
      quotaDb)
   \<and> messages (snd (checkUsageLimit ''messages'' ''u1'' sendOne quotaDb)) = []
   \<and> messages (snd (sendOne quotaDb)) = [msg1]"
proof -
  have l: "ownProp (plan_limits freePlan) ''messages'' = Some 5"
    by (simp add: ownProp_def freePlan_def)
  have n: "(5::int) \<noteq> - 1" by simp
  have g: "ownProp (user_quotaUsed alice) ''messages'' = Some 5
           \<or> (ownProp (user_quotaUsed alice) ''messages'' = None
              \<and> ''messages'' \<notin> set objectPrototype \<and> (5::int) = 0)"
    by (simp add: ownProp_def alice_def)
  have le: "(5::int) \<le> 5" by simp
  have s: "messages (snd (sendOne quotaDb)) = [msg1]"
    by (simp add: sendOne_def quotaDb_def)
  have e: "messages quotaDb = []" by (simp add: quotaDb_def)
  show ?thesis
    using checkUsageLimit_rejects [OF findUser_quotaDb planOf_quotaDb l n g le, of sendOne] s e
    by simp
qed

text \<open>
  C10, as the claim has it, fails for a resource whose name \<open>Object.prototype\<close>
  defines. The plan has no entry for \<open>toString\<close> and the tenant none either: the check
  reads the same inherited function as limit and as usage, finds it \<open>>=\<close> itself, and
  answers 403.
\<close>

theorem unlisted_resource_passes_counterexample:
  "ownProp (plan_limits freePlan) ''toString'' = None
   \<and> checkUsageLimit ''toString'' ''u1'' sendOne quotaDb =
       (Response 403 (UsageLimitBody ''Usage limit exceeded'' ''toString''
          (Inherited ''toString'') (Inherited ''toString'') True), quotaDb)"
proof -
  have l: "getProp (plan_limits freePlan) ''toString'' = Inherited ''toString''"
    by (rule getProp_inherited [OF _ toString_inherited]) (simp add: ownProp_def freePlan_def)
  have u: "getProp (user_quotaUsed alice) ''toString'' = Inherited ''toString''"
    by (rule getProp_inherited [OF _ toString_inherited]) (simp add: ownProp_def alice_def)
  have "checkUsageLimit ''toString'' ''u1'' sendOne quotaDb =
       (Response 403 (UsageLimitBody ''Usage limit exceeded'' ''toString''
          (Inherited ''toString'') (Inherited ''toString'') True), quotaDb)"
    by (simp add: checkUsageLimit_def findUser_quotaDb planOf_quotaDb l u orZero_def
        strictNotEq_def greaterEq_def stringLess_irrefl Let_def)
  moreover have "ownProp (plan_limits freePlan) ''toString'' = None"
    by (simp add: ownProp_def freePlan_def)
  ultimately show ?thesis by simp
qed

text \<open>
  C10, amended. For a tenant with a plan and a resource name that the plan's \<open>limits\<close>
  object has no entry for, the usage-limit check passes whatever the recorded usage is,
  and the request goes on to the rest of the handler chain, with one exception: when the
  name is one that \<open>Object.prototype\<close> defines (\<open>toString\<close>, \<open>constructor\<close>, ...)
  and the tenant has no usage entry under it either, the check answers 403.
\<close>

theorem checkUsageLimit_unlisted:
  assumes "findUser d uid = Some user" and "planOf d user = Some plan"
    and "ownProp (plan_limits plan) resource = None"
  shows "checkUsageLimit resource uid next d =
           (if resource \<in> set objectPrototype
               \<and> ownProp (user_quotaUsed user) resource = None
            then (Response 403 (UsageLimitBody ''Usage limit exceeded'' resource
                    (Inherited resource) (Inherited resource) True), d)
            else next d)"
proof (cases "resource \<in> set objectPrototype")
  case False
  have l: "getProp (plan_limits plan) resource = Undefined"
    by (rule getProp_ordinary [OF assms(3) False])
  show ?thesis
    using assms(1,2) False
    by (simp add: checkUsageLimit_def l greaterEq_def orZero_def split: jsval.splits)
next
  case True
  have l: "getProp (plan_limits plan) resource = Inherited resource"
    by (rule getProp_inherited [OF assms(3) True])
  show ?thesis
  proof (cases "ownProp (user_quotaUsed user) resource")
    case None
    have u: "getProp (user_quotaUsed user) resource = Inherited resource"
      by (rule getProp_inherited [OF None True])
    show ?thesis
      using assms(1,2) True None
      by (simp add: checkUsageLimit_def l u orZero_def strictNotEq_def greaterEq_def
          stringLess_irrefl Let_def)
  next
    case (Some v)
    have u: "getProp (user_quotaUsed user) resource = Num v"
      by (rule getProp_own [OF Some])
    show ?thesis
      using assms(1,2) True Some
      by (simp add: checkUsageLimit_def l u orZero_def strictNotEq_def greaterEq_def)
  qed
qed

theorem checkUsageLimit_unlisted_witness:
  "ownProp (user_quotaUsed (alice\<lparr>user_quotaUsed := [(''flows'', 1000)]\<rparr>)) ''flows''
     = Some 1000
   \<and> checkUsageLimit ''flows'' ''u1'' sendOne
       (quotaDb\<lparr>users := [alice\<lparr>user_quotaUsed := [(''flows'', 1000)]\<rparr>]\<rparr>)
     = sendOne (quotaDb\<lparr>users := [alice\<lparr>user_quotaUsed := [(''flows'', 1000)]\<rparr>]\<rparr>)
   \<and> checkUsageLimit ''toString'' ''u1'' sendOne quotaDb =
       (Response 403 (UsageLimitBody ''Usage limit exceeded'' ''toString''
          (Inherited ''toString'') (Inherited ''toString'') True), quotaDb)"
proof -
  let ?d = "quotaDb\<lparr>users := [alice\<lparr>user_quotaUsed := [(''flows'', 1000)]\<rparr>]\<rparr>"
  let ?u = "alice\<lparr>user_quotaUsed := [(''flows'', 1000)]\<rparr>"
  have u: "findUser ?d ''u1'' = Some ?u"
    by (simp add: findUser_def quotaDb_def alice_def)
  have p: "planOf ?d ?u = Some freePlan"
    by (simp add: planOf_def quotaDb_def alice_def freePlan_def)
  have l: "ownProp (plan_limits freePlan) ''flows'' = None"
    by (simp add: ownProp_def freePlan_def)
  have o: "''flows'' \<notin> set objectPrototype" by (simp add: objectPrototype_def)
  have g: "ownProp (user_quotaUsed ?u) ''flows'' = Some 1000" by (simp add: ownProp_def)
  have l': "ownProp (plan_limits freePlan) ''toString'' = None"
    by (simp add: ownProp_def freePlan_def)
  have n: "ownProp (user_quotaUsed alice) ''toString'' = None"
    by (simp add: ownProp_def alice_def)
  show ?thesis
    using checkUsageLimit_unlisted [OF u p l, of sendOne] o g
      checkUsageLimit_unlisted [OF findUser_quotaDb planOf_quotaDb l', of sendOne]
      toString_inherited n
    by simp
qed


section \<open>Status ingestion: theorems\<close>

lemma handleMessageStatus_length:
  "length (messages (handleMessageStatus lib cb d)) = length (messages d)"
  by (simp add: handleMessageStatus_def Let_def)

lemma handleMessageStatus_nth:
  "k < length (messages d) \<Longrightarrow>
   messages (handleMessageStatus lib cb d) ! k =
     (if dateAccepted lib (ud_deliveredAt (statusUpdateData cb))
         \<and> dateAccepted lib (ud_readAt (statusUpdateData cb))
         \<and> m_whatsappMessageId (messages d ! k) = Some (s_id cb)
      then applyUpdate (statusUpdateData cb) (messages d ! k) else messages d ! k)"
  by (simp add: handleMessageStatus_def Let_def)

lemma applyUpdate_providerId [simp]:
  "m_whatsappMessageId (applyUpdate ud m) = m_whatsappMessageId m"
  by (simp add: applyUpdate_def)

lemma statusUpdateData_failed:
  "s_status cb = ''failed'' \<Longrightarrow>
   statusUpdateData cb =
     emptyUpdate\<lparr>ud_status := Some MSG_FAILED,
                 ud_errorMessage := Some (orDefault (s_errorTitle cb) ''Message failed'')\<rparr>"
  by (simp add: statusUpdateData_def)

lemma statusUpdateData_delivered:
  "s_status cb = ''delivered'' \<Longrightarrow>
   statusUpdateData cb =
     emptyUpdate\<lparr>ud_status := Some MSG_DELIVERED, ud_deliveredAt := Some (statusDate cb)\<rparr>"
  by (simp add: statusUpdateData_def)

lemma statusUpdateData_read:
  "s_status cb = ''read'' \<Longrightarrow>
   statusUpdateData cb =
     emptyUpdate\<lparr>ud_status := Some MSG_READ, ud_readAt := Some (statusDate cb)\<rparr>"
  by (simp add: statusUpdateData_def)

lemmas status_defs = handleMessageStatus_def statusUpdateData_def statusDate_def newDate_def
  dateAccepted_def applyUpdate_def emptyUpdate_def orDefault_def Let_def

text \<open>
  A callback whose date is not accepted leaves the store as it was.
\<close>

lemma handleMessageStatus_date_refused:
  assumes "s_status cb = ''delivered'' \<or> s_status cb = ''read''"
    and "\<not> dateAccepted lib (Some (statusDate cb))"
  shows "handleMessageStatus lib cb d = d"
  using assms by (auto simp: handleMessageStatus_def statusUpdateData_def emptyUpdate_def Let_def)

text \<open>
  C3, as the claim has it, fails: the update is a blind overwrite. A message that a
  \<open>failed\<close> callback has marked FAILED is DELIVERED after a later \<open>delivered\<close> callback
  and READ after a later \<open>read\<close> one; a message marked DELIVERED is FAILED after a later
  \<open>failed\<close> callback.
\<close>

theorem failed_is_terminal_counterexample:
  "map m_status (messages (handleMessageStatus exampleLib cbFailed msgDb)) = [MSG_FAILED]
   \<and> map m_status (messages (handleMessageStatus exampleLib cbDelivered
        (handleMessageStatus exampleLib cbFailed msgDb))) = [MSG_DELIVERED]
   \<and> map m_status (messages (handleMessageStatus exampleLib cbRead
        (handleMessageStatus exampleLib cbFailed msgDb))) = [MSG_READ]
   \<and> map m_status (messages (handleMessageStatus exampleLib cbDelivered msgDb))
       = [MSG_DELIVERED]
   \<and> map m_status (messages (handleMessageStatus exampleLib cbFailed
        (handleMessageStatus exampleLib cbDelivered msgDb))) = [MSG_FAILED]"
  by (simp add: status_defs msgDb_def msg1_def cbFailed_def cbDelivered_def cbRead_def
      exampleLib_def)

text \<open>
  C3, amended. Status ingestion is last-writer-wins: for the message at any position of
  the table whose provider id is \<open>i\<close>, once a \<open>failed\<close> callback for \<open>i\<close> has been
  ingested, a later \<open>delivered\<close> callback for \<open>i\<close> leaves it DELIVERED and a later
  \<open>read\<close> callback leaves it READ (FAILED is overwritten); and a \<open>failed\<close> callback
  ingested after a \<open>delivered\<close> one leaves it FAILED, with the \<open>deliveredAt\<close> that the
  \<open>delivered\<close> callback wrote still in place. The \<open>delivered\<close> and \<open>read\<close> callbacks
  are ones whose timestamp is a date that the store takes; a \<open>delivered\<close> or
  \<open>read\<close> callback whose timestamp is not such a date changes nothing.
\<close>

theorem status_last_writer_wins:
  assumes "k < length (messages d)"
    and "m_whatsappMessageId (messages d ! k) = Some i"
    and "s_id f = i" and "s_status f = ''failed''"
    and "s_id dl = i" and "s_status dl = ''delivered''"
    and "statusDate dl = Some tdl" and "lib_storesDate lib tdl"
    and "s_id rd = i" and "s_status rd = ''read''"
    and "statusDate rd = Some trd" and "lib_storesDate lib trd"
  shows "m_status (messages (handleMessageStatus lib f d) ! k) = MSG_FAILED
       \<and> m_status (messages (handleMessageStatus lib dl (handleMessageStatus lib f d)) ! k)
           = MSG_DELIVERED
       \<and> m_status (messages (handleMessageStatus lib rd (handleMessageStatus lib f d)) ! k)
           = MSG_READ
       \<and> m_status (messages (handleMessageStatus lib f (handleMessageStatus lib dl d)) ! k)
           = MSG_FAILED
       \<and> m_deliveredAt (messages (handleMessageStatus lib f (handleMessageStatus lib dl d)) ! k)
           = Some tdl
       \<and> ((s_status late = ''delivered'' \<or> s_status late = ''read'')
            \<and> \<not> dateAccepted lib (Some (statusDate late)) \<longrightarrow>
          handleMessageStatus lib late d = d)"
proof -
  have writes:
    "m_status (messages (handleMessageStatus lib f d) ! k) = MSG_FAILED
     \<and> m_status (messages (handleMessageStatus lib dl (handleMessageStatus lib f d)) ! k)
         = MSG_DELIVERED
     \<and> m_status (messages (handleMessageStatus lib rd (handleMessageStatus lib f d)) ! k)
         = MSG_READ
     \<and> m_status (messages (handleMessageStatus lib f (handleMessageStatus lib dl d)) ! k)
         = MSG_FAILED
     \<and> m_deliveredAt (messages (handleMessageStatus lib f (handleMessageStatus lib dl d)) ! k)
         = Some tdl"
    using assms
    by (simp add: handleMessageStatus_nth handleMessageStatus_length statusUpdateData_failed
        statusUpdateData_delivered statusUpdateData_read)
       (simp add: dateAccepted_def applyUpdate_def emptyUpdate_def)
  have refused:
    "(s_status late = ''delivered'' \<or> s_status late = ''read'')
       \<and> \<not> dateAccepted lib (Some (statusDate late)) \<longrightarrow>
     handleMessageStatus lib late d = d"
    using handleMessageStatus_date_refused [of late lib d] by simp
  from writes refused show ?thesis by (simp only: simp_thms)
qed

theorem status_last_writer_wins_witness:
  "statusDate cbDelivered = Some 100000 \<and> lib_storesDate exampleLib 100000
   \<and> statusDate cbRead = Some 200000 \<and> lib_storesDate exampleLib 200000
   \<and> m_status (messages (handleMessageStatus exampleLib cbFailed msgDb) ! 0) = MSG_FAILED
   \<and> m_status (messages (handleMessageStatus exampleLib cbDelivered
        (handleMessageStatus exampleLib cbFailed msgDb)) ! 0) = MSG_DELIVERED
   \<and> m_status (messages (handleMessageStatus exampleLib cbRead
        (handleMessageStatus exampleLib cbFailed msgDb)) ! 0) = MSG_READ
   \<and> m_status (messages (handleMessageStatus exampleLib cbFailed
        (handleMessageStatus exampleLib cbDelivered msgDb)) ! 0) = MSG_FAILED
   \<and> m_deliveredAt (messages (handleMessageStatus exampleLib cbFailed
        (handleMessageStatus exampleLib cbDelivered msgDb)) ! 0) = Some 100000
   \<and> statusDate cbReadLate = None
   \<and> handleMessageStatus exampleLib cbReadLate msgDb = msgDb"
proof -
  have late: "s_status cbReadLate = ''read''" "statusDate cbReadLate = None"
    by (simp_all add: statusDate_def newDate_def cbReadLate_def)
  have k: "0 < length (messages msgDb)" by (simp add: msgDb_def)
  have i: "m_whatsappMessageId (messages msgDb ! 0) = Some ''wamid.1''"
    by (simp add: msgDb_def msg1_def)
  have f: "s_id cbFailed = ''wamid.1''" "s_status cbFailed = ''failed''"
    by (simp_all add: cbFailed_def)
  have dl: "s_id cbDelivered = ''wamid.1''" "s_status cbDelivered = ''delivered''"
    by (simp_all add: cbDelivered_def)
  have rd: "s_id cbRead = ''wamid.1''" "s_status cbRead = ''read''"
    by (simp_all add: cbRead_def)
  have tdl: "statusDate cbDelivered = Some 100000"
    by (simp add: statusDate_def newDate_def cbDelivered_def)
  have trd: "statusDate cbRead = Some 200000"
    by (simp add: statusDate_def newDate_def cbRead_def)
  have sd: "lib_storesDate exampleLib 100000" and sr: "lib_storesDate exampleLib 200000"
    by (simp_all add: exampleLib_def)
  show ?thesis
    using status_last_writer_wins [OF k i f dl tdl sd rd trd sr, of cbReadLate] tdl trd sd sr late
    by (simp add: dateAccepted_def)
qed

text \<open>
  C4, as the claim has it, fails: the \<open>read\<close> branch writes \<open>status\<close> and \<open>readAt\<close>
  only. A message with no recorded delivery still has no \<open>deliveredAt\<close> after a
  \<open>read\<close> callback.
\<close>

theorem read_sets_deliveredAt_counterexample:
  "map m_deliveredAt (messages msgDb) = [None]
   \<and> map m_readAt (messages (handleMessageStatus exampleLib cbRead msgDb)) = [Some 200000]
   \<and> map m_deliveredAt (messages (handleMessageStatus exampleLib cbRead msgDb)) = [None]"
  by (simp add: status_defs msgDb_def msg1_def cbRead_def exampleLib_def)

text \<open>
  C4, amended. Ingesting a \<open>read\<close> callback for provider id \<open>i\<close> whose timestamp is a
  date that the store takes sets, on the message with that id, the status READ and
  \<open>readAt\<close> to the callback's timestamp, and leaves \<open>deliveredAt\<close> as it was: a
  message with no recorded delivery keeps \<open>deliveredAt\<close> empty. A \<open>read\<close> callback
  whose timestamp is not such a date (beyond the range of a Date, or not a number)
  changes nothing.
\<close>

theorem read_callback_sets_readAt_only:
  assumes "k < length (messages d)"
    and "m_whatsappMessageId (messages d ! k) = Some (s_id cb)"
    and "s_status cb = ''read''"
  shows "(\<forall>t. statusDate cb = Some t \<and> lib_storesDate lib t \<longrightarrow>
            m_status (messages (handleMessageStatus lib cb d) ! k) = MSG_READ
          \<and> m_readAt (messages (handleMessageStatus lib cb d) ! k) = Some t
          \<and> m_deliveredAt (messages (handleMessageStatus lib cb d) ! k)
              = m_deliveredAt (messages d ! k))
       \<and> (\<not> dateAccepted lib (Some (statusDate cb)) \<longrightarrow>
            handleMessageStatus lib cb d = d)"
proof (intro conjI allI impI)
  fix t assume a: "statusDate cb = Some t \<and> lib_storesDate lib t"
  have m: "messages (handleMessageStatus lib cb d) ! k
             = applyUpdate (statusUpdateData cb) (messages d ! k)"
    using assms a
    by (simp add: handleMessageStatus_nth statusUpdateData_read)
       (simp add: dateAccepted_def emptyUpdate_def)
  show "m_status (messages (handleMessageStatus lib cb d) ! k) = MSG_READ"
    unfolding m using assms(3) by (simp add: statusUpdateData_read applyUpdate_def emptyUpdate_def)
  show "m_readAt (messages (handleMessageStatus lib cb d) ! k) = Some t"
    unfolding m using assms(3) a
    by (simp add: statusUpdateData_read applyUpdate_def emptyUpdate_def)
  show "m_deliveredAt (messages (handleMessageStatus lib cb d) ! k)
          = m_deliveredAt (messages d ! k)"
    unfolding m using assms(3) by (simp add: statusUpdateData_read applyUpdate_def emptyUpdate_def)
next
  assume "\<not> dateAccepted lib (Some (statusDate cb))"
  then show "handleMessageStatus lib cb d = d"
    using assms(3) handleMessageStatus_date_refused [of cb lib d] by simp
qed

theorem read_callback_sets_readAt_only_witness:
  "m_deliveredAt (messages msgDb ! 0) = None
   \<and> statusDate cbRead = Some 200000 \<and> lib_storesDate exampleLib 200000
   \<and> m_status (messages (handleMessageStatus exampleLib cbRead msgDb) ! 0) = MSG_READ
   \<and> m_readAt (messages (handleMessageStatus exampleLib cbRead msgDb) ! 0) = Some 200000
   \<and> m_deliveredAt (messages (handleMessageStatus exampleLib cbRead msgDb) ! 0) = None
   \<and> statusDate cbReadLate = None
   \<and> handleMessageStatus exampleLib cbReadLate msgDb = msgDb"
proof -
  have k: "0 < length (messages msgDb)" by (simp add: msgDb_def)
  have i: "m_whatsappMessageId (messages msgDb ! 0) = Some (s_id cbRead)"
    by (simp add: msgDb_def msg1_def cbRead_def)
  have i': "m_whatsappMessageId (messages msgDb ! 0) = Some (s_id cbReadLate)"
    by (simp add: msgDb_def msg1_def cbReadLate_def)
  have r: "s_status cbRead = ''read''" by (simp add: cbRead_def)
  have r': "s_status cbReadLate = ''read''" by (simp add: cbReadLate_def)
  have n: "m_deliveredAt (messages msgDb ! 0) = None" by (simp add: msgDb_def msg1_def)
  have t: "statusDate cbRead = Some 200000"
    by (simp add: statusDate_def newDate_def cbRead_def)
  have t': "statusDate cbReadLate = None"
    by (simp add: statusDate_def newDate_def cbReadLate_def)
  have st: "lib_storesDate exampleLib 200000" by (simp add: exampleLib_def)
  show ?thesis
    using read_callback_sets_readAt_only [OF k i r, of exampleLib]
      read_callback_sets_readAt_only [OF k i' r', of exampleLib] n t t' st
    by (simp add: dateAccepted_def)
qed


section \<open>Dispatch worker: bounds on the counters\<close>

lemma campStep_refl: "campStep cid n c c"
  by (simp add: campStep_def)

lemma campStep_trans:
  "campStep cid n a b \<Longrightarrow> campStep cid m b c \<Longrightarrow> campStep cid (n + m) a c"
  by (auto simp: campStep_def split: if_splits)

lemma workerStep_refl: "workerStep cid n d d"
  by (simp add: workerStep_def list_all2_refl campStep_refl)

lemma workerStep_trans:
  assumes "workerStep cid n d d'" and "workerStep cid m d' d''"
  shows "workerStep cid (n + m) d d''"
proof -
  have "list_all2 (campStep cid (n + m)) (campaigns d) (campaigns d'')"
    using assms
    by (auto simp: workerStep_def intro: list_all2_trans [where ?P1.0 = "campStep cid n" and ?P2.0 = "campStep cid m"] campStep_trans)
  then show ?thesis using assms by (simp add: workerStep_def)
qed

lemma workerStep_mono: "workerStep cid n d d' \<Longrightarrow> n \<le> m \<Longrightarrow> workerStep cid m d d'"
  by (auto simp: workerStep_def campStep_def elim!: list_all2_mono split: if_splits)

lemma list_all2_map_same:
  "(\<And>x. x \<in> set xs \<Longrightarrow> P x (f x)) \<Longrightarrow> list_all2 P xs (map f xs)"
  by (induction xs) auto

lemma sendAttempt_step:
  "case sendAttempt snap cc now a d of
     Done d' \<Rightarrow> workerStep (c_id (snap_campaign snap)) 1 d d'
   | Thrown d' \<Rightarrow> workerStep (c_id (snap_campaign snap)) 0 d d'"
  by (auto simp: sendAttempt_def andThen_def message_create_def campaignContact_update_def
      campaign_update_def workerStep_def campStep_def rowKey_def
      intro!: list_all2_map_same list_all2_refl)

lemma recordFailure_step:
  "workerStep (c_id (snap_campaign snap)) 1 d (stateOf (recordFailure snap cc now d))"
  by (auto simp: recordFailure_def andThen_def campaignContact_update_def
      campaign_update_def workerStep_def campStep_def rowKey_def
      intro!: list_all2_map_same list_all2_refl)

lemma processContact_step:
  "workerStep (c_id (snap_campaign snap)) 1 d (stateOf (processContact snap cc now a d))"
proof (cases "sendAttempt snap cc now a d")
  case (Done d')
  then show ?thesis using sendAttempt_step [where snap = snap and cc = cc and now = now and a = a and d = d]
    by (simp add: processContact_def)
next
  case (Thrown d')
  then have "workerStep (c_id (snap_campaign snap)) 0 d d'"
    using sendAttempt_step [where snap = snap and cc = cc and now = now and a = a and d = d] by simp
  from workerStep_trans [OF this recordFailure_step [where snap = snap and d = d' and cc = cc and now = now]]
  show ?thesis using Thrown by (simp add: processContact_def)
qed

lemma processContacts_step:
  "workerStep (c_id (snap_campaign snap)) (length ccs) d
     (stateOf (processContacts snap ccs now as d))"
proof (induction ccs arbitrary: as d)
  case Nil
  show ?case by (simp add: workerStep_refl)
next
  case (Cons cc ccs)
  let ?a = "case as of [] \<Rightarrow> Succeeds | a # _ \<Rightarrow> a"
  have s: "workerStep (c_id (snap_campaign snap)) 1 d (stateOf (processContact snap cc now ?a d))"
    by (rule processContact_step)
  show ?case
  proof (cases "processContact snap cc now ?a d")
    case (Done d')
    with s have "workerStep (c_id (snap_campaign snap)) 1 d d'" by simp
    from workerStep_trans [OF this Cons.IH [where as = "tl as" and d = d']]
    show ?thesis using Done by simp
  next
    case (Thrown d')
    with s have "workerStep (c_id (snap_campaign snap)) 1 d d'" by simp
    then show ?thesis using Thrown by (auto intro: workerStep_mono)
  qed
qed

lemma markCompleted_step:
  "workerStep (c_id (snap_campaign snap)) 0 d (stateOf (markCompleted snap now d))"
  by (auto simp: markCompleted_def campaign_update_def workerStep_def campStep_def
      intro!: list_all2_map_same list_all2_refl)

lemma markFailed_step:
  "workerStep cid 0 d (stateOf (campaign_update cid (\<lambda>c. c\<lparr>c_status := FAILED\<rparr>) d))"
  by (auto simp: campaign_update_def workerStep_def campStep_def
      intro!: list_all2_map_same list_all2_refl)

lemma processCampaignMessages_step:
  "workerStep (c_id (snap_campaign snap)) (min 5 (length (snap_contacts snap))) d
     (processCampaignMessages snap now as d)"
proof -
  let ?cid = "c_id (snap_campaign snap)"
  let ?n = "min 5 (length (snap_contacts snap))"
  let ?r = "processContacts snap (take 5 (snap_contacts snap)) now as d"
  have n: "length (take 5 (snap_contacts snap)) = ?n" by simp
  have 1: "workerStep ?cid ?n d (stateOf ?r)"
    using processContacts_step [where snap = snap and ccs = "take 5 (snap_contacts snap)" and d = d and now = now and as = as] n by (simp add: min.commute)
  have 2: "workerStep ?cid ?n d (stateOf (andThen ?r (markCompleted snap now)))"
  proof (cases ?r)
    case (Done d')
    with 1 have "workerStep ?cid ?n d d'" by simp
    from workerStep_trans [OF this markCompleted_step [where snap = snap and d = d' and now = now]]
    show ?thesis using Done by (simp add: andThen_def)
  next
    case (Thrown d')
    with 1 show ?thesis by (simp add: andThen_def)
  qed
  show ?thesis
  proof (cases "andThen ?r (markCompleted snap now)")
    case (Done d')
    with 2 show ?thesis by (simp add: processCampaignMessages_def)
  next
    case (Thrown d')
    with 2 have "workerStep ?cid ?n d d'" by simp
    from workerStep_trans [OF this markFailed_step [of ?cid d']]
    show ?thesis using Thrown
      by (auto simp: processCampaignMessages_def split: outcome.splits)
  qed
qed

section \<open>Campaign counters over a run of operations\<close>

lemma contactsOf_length_keys:
  assumes "map rowKey (campaignContacts d') = map rowKey (campaignContacts d)"
  shows "length (contactsOf d' cid) = length (contactsOf d cid)"
proof -
  have e: "\<And>e. length (contactsOf e cid)
          = length (filter (\<lambda>k. fst k = cid) (map rowKey (campaignContacts e)))"
    by (simp add: contactsOf_def filter_map o_def rowKey_def)
  show ?thesis unfolding e assms ..
qed

lemma findCampaign_member:
  "findCampaign d cid uid = Some c \<Longrightarrow> c \<in> set (campaigns d) \<and> c_id c = cid \<and> c_userId c = uid"
  by (auto simp: findCampaign_def find_Some_iff)

lemma findCampaign_id_exists:
  "findCampaign d cid uid = Some c \<Longrightarrow> cid \<in> c_id ` set (campaigns d)"
  using findCampaign_member by force

lemma pause_effect:
  "list_all2 (grow 0) (campaigns d) (campaigns (snd (pauseCampaign cid uid d)))
   \<and> campaignContacts (snd (pauseCampaign cid uid d)) = campaignContacts d"
  by (auto simp: pauseCampaign_def campaign_update_def grow_def
      split: option.splits intro!: list_all2_map_same list_all2_refl)

lemma handler_effect:
  "list_all2 (grow 0) (campaigns d) (campaigns (snd (updateCampaign cid uid nm ds sc d)))
   \<and> campaignContacts (snd (updateCampaign cid uid nm ds sc d)) = campaignContacts d"
  by (auto simp: updateCampaign_def campaign_update_def grow_def editCampaign_def
      split: option.splits intro!: list_all2_map_same list_all2_refl)

lemma grow_same: "list_all2 (grow 0) xs xs"
  by (simp add: list_all2_refl grow_def)

lemma edit_effect:
  "list_all2 (grow 0) (campaigns d) (campaigns (snd (putCampaign lib cid uid nm ds sc d)))
   \<and> campaignContacts (snd (putCampaign lib cid uid nm ds sc d)) = campaignContacts d"
  by (simp add: putCampaign_def handler_effect grow_same split: option.splits)

lemma ingest_effect:
  "campaigns (handleMessageStatus lib cb d) = campaigns d
   \<and> campaignContacts (handleMessageStatus lib cb d) = campaignContacts d"
  by (simp add: handleMessageStatus_def Let_def)

lemma start_refused:
  "fst (startCampaign cid uid now as d)
     \<noteq> Response 200 (MessageBody ''Campaign started successfully'')
   \<Longrightarrow> snd (startCampaign cid uid now as d) = d"
  by (auto simp: startCampaign_def campaign_update_def split: option.splits if_splits)

lemma campStep_grow: "campStep cid n c c' \<Longrightarrow> grow (if c_id c = cid then n else 0) c c'"
  by (auto simp: campStep_def grow_def split: if_splits)

lemma start_effect:
  "list_all2 (\<lambda>c c'. grow (if c_id c = cid then min 5 (length (contactsOf d cid)) else 0) c c')
     (campaigns d) (campaigns (snd (startCampaign cid uid now as d)))
   \<and> map rowKey (campaignContacts (snd (startCampaign cid uid now as d)))
       = map rowKey (campaignContacts d)"
proof (cases "findCampaign d cid uid")
  case None
  then show ?thesis by (simp add: startCampaign_def grow_def list_all2_refl)
next
  case (Some c)
  show ?thesis
  proof (cases "c_status c \<noteq> DRAFT \<and> c_status c \<noteq> SCHEDULED")
    case True
    then show ?thesis using Some by (simp add: startCampaign_def grow_def list_all2_refl)
  next
    case False
    let ?f = "\<lambda>c. c\<lparr>c_status := RUNNING, c_startedAt := Some now\<rparr>"
    let ?d1 = "d\<lparr>campaigns := map (\<lambda>c. if c_id c = cid then ?f c else c) (campaigns d)\<rparr>"
    let ?snap = "\<lparr>snap_campaign = c, snap_contacts = contactsOf d cid,
                   snap_template = templateOf d c\<rparr>"
    have u: "campaign_update cid ?f d = Done ?d1"
      using findCampaign_id_exists [OF Some] by (simp add: campaign_update_def)
    have cid: "c_id (snap_campaign ?snap) = cid"
      using findCampaign_member [OF Some] by simp
    have r: "snd (startCampaign cid uid now as d) = processCampaignMessages ?snap now as ?d1"
      using Some False u by (auto simp: startCampaign_def)
    have w: "workerStep cid (min 5 (length (contactsOf d cid))) ?d1
               (processCampaignMessages ?snap now as ?d1)"
      using processCampaignMessages_step [where snap = ?snap and d = ?d1 and now = now and as = as]
        cid by simp
    have a: "list_all2 (grow 0) (campaigns d) (campaigns ?d1)"
      by (auto simp: grow_def intro!: list_all2_map_same)
    have b: "list_all2 (\<lambda>c c'. grow (if c_id c = cid then min 5 (length (contactsOf d cid)) else 0) c c')
               (campaigns ?d1) (campaigns (processCampaignMessages ?snap now as ?d1))"
      using w by (auto simp: workerStep_def elim!: list_all2_mono dest: campStep_grow)
    have "list_all2 (\<lambda>c c'. grow (if c_id c = cid then min 5 (length (contactsOf d cid)) else 0) c c')
               (campaigns d) (campaigns (processCampaignMessages ?snap now as ?d1))"
      by (rule list_all2_trans [OF _ a b]) (auto simp: grow_def split: if_splits)
    moreover have "map rowKey (campaignContacts (processCampaignMessages ?snap now as ?d1))
        = map rowKey (campaignContacts d)"
      using w by (simp add: workerStep_def)
    ultimately show ?thesis using r by simp
  qed
qed

lemma perform_effect:
  "list_all2 (opStep op d) (campaigns d) (campaigns (perform lib op d))
   \<and> map rowKey (campaignContacts (perform lib op d)) = map rowKey (campaignContacts d)"
proof (cases op)
  case (Start cid uid now as)
  show ?thesis
  proof (cases "fst (startCampaign cid uid now as d)
                  = Response 200 (MessageBody ''Campaign started successfully'')")
    case True
    have "list_all2 (opStep op d) (campaigns d)
            (campaigns (snd (startCampaign cid uid now as d)))"
      using start_effect [of cid d uid now as, THEN conjunct1] Start True
      by (auto simp: opStep_def startedBy_def elim!: list_all2_mono)
    then show ?thesis using start_effect [of cid d uid now as, THEN conjunct2] Start by simp
  next
    case False
    have "opStep op d = grow 0"
      using Start False by (simp add: opStep_def startedBy_def fun_eq_iff)
    then show ?thesis using Start start_refused [OF False] by (simp add: grow_same)
  qed
next
  case (Pause cid uid)
  have "opStep op d = grow 0"
    using Pause by (simp add: opStep_def startedBy_def fun_eq_iff)
  then show ?thesis using Pause pause_effect [of d cid uid] by simp
next
  case (Edit cid uid nm ds sc)
  have "opStep op d = grow 0"
    using Edit by (simp add: opStep_def startedBy_def fun_eq_iff)
  then show ?thesis using Edit edit_effect [of d lib cid uid nm ds sc] by simp
next
  case (Ingest cb)
  have "opStep op d = grow 0"
    using Ingest by (simp add: opStep_def startedBy_def fun_eq_iff)
  then show ?thesis using Ingest ingest_effect [of lib cb d] by (simp add: grow_same)
qed

lemma list_all2_preimage:
  "list_all2 R xs ys \<Longrightarrow> y \<in> set ys \<Longrightarrow> \<exists>x \<in> set xs. R x y"
  by (induction rule: list_all2_induct) auto

lemma countedD:
  assumes "counted k d" and "c \<in> set (campaigns d)"
  shows "c_deliveredCount c = 0" and "c_readCount c = 0" and "0 \<le> c_sentCount c"
    and "0 \<le> c_failedCount c"
    and "c_totalContacts c = int (length (contactsOf d (c_id c)))"
    and "c_sentCount c + c_failedCount c \<le> min 5 (c_totalContacts c) * int (k (c_id c))"
  using assms unfolding counted_def by blast+

lemma perform_counted:
  assumes "counted k d"
  shows "counted (\<lambda>i. k i + startedBy i op d) (perform lib op d)"
  unfolding counted_def
proof
  fix c' assume mem: "c' \<in> set (campaigns (perform lib op d))"
  note la = perform_effect [of op d lib, THEN conjunct1]
  note keys = perform_effect [of op d lib, THEN conjunct2]
  from list_all2_preimage [OF la mem]
  obtain c where c: "c \<in> set (campaigns d)" and st: "opStep op d c c'" by blast
  have len: "length (contactsOf (perform lib op d) (c_id c)) = length (contactsOf d (c_id c))"
    by (rule contactsOf_length_keys [OF keys])
  have inv: "c_deliveredCount c = 0" "c_readCount c = 0" "0 \<le> c_sentCount c"
    "0 \<le> c_failedCount c" "c_totalContacts c = int (length (contactsOf d (c_id c)))"
    "c_sentCount c + c_failedCount c \<le> min 5 (c_totalContacts c) * int (k (c_id c))"
    by (rule countedD [OF assms c])+
  have g: "c_id c' = c_id c" "c_totalContacts c' = c_totalContacts c"
    "c_deliveredCount c' = c_deliveredCount c" "c_readCount c' = c_readCount c"
    "c_sentCount c \<le> c_sentCount c'" "c_failedCount c \<le> c_failedCount c'"
    "c_sentCount c' + c_failedCount c'
       \<le> c_sentCount c + c_failedCount c
         + int (startedBy (c_id c) op d * min 5 (length (contactsOf d (c_id c))))"
    using st by (simp_all add: opStep_def grow_def)
  define M where "M = min 5 (c_totalContacts c)"
  define S where "S = int (startedBy (c_id c) op d)"
  define K where "K = int (k (c_id c))"
  have m: "int (min 5 (length (contactsOf d (c_id c)))) = M"
    unfolding M_def inv(5) by simp
  have p: "int (startedBy (c_id c) op d * min 5 (length (contactsOf d (c_id c)))) = M * S"
    unfolding S_def m [symmetric] by (simp only: of_nat_mult mult.commute)
  have q: "c_sentCount c + c_failedCount c \<le> M * K"
    using inv(6) unfolding M_def K_def .
  have "c_sentCount c' + c_failedCount c' \<le> M * K + M * S"
    using g(7) q unfolding p by linarith
  also have "M * K + M * S = M * (K + S)"
    by (simp only: distrib_left)
  also have "K + S = int (k (c_id c) + startedBy (c_id c) op d)"
    unfolding K_def S_def by (simp only: of_nat_add)
  finally have r: "c_sentCount c' + c_failedCount c'
      \<le> min 5 (c_totalContacts c') * int (k (c_id c') + startedBy (c_id c') op d)"
    unfolding M_def g(1) g(2) .
  have t: "c_totalContacts c' = int (length (contactsOf (perform lib op d) (c_id c')))"
    unfolding g(1) g(2) len inv(5) ..
  have z: "0 \<le> c_sentCount c'" "0 \<le> c_failedCount c'"
    using g(5) g(6) inv(3) inv(4) by linarith+
  have dr: "c_deliveredCount c' = 0" "c_readCount c' = 0"
    unfolding g(3) g(4) by (rule inv(1), rule inv(2))
  show "c_deliveredCount c' = 0 \<and> c_readCount c' = 0
      \<and> 0 \<le> c_sentCount c' \<and> 0 \<le> c_failedCount c'
      \<and> c_totalContacts c' = int (length (contactsOf (perform lib op d) (c_id c')))
      \<and> c_sentCount c' + c_failedCount c'
          \<le> min 5 (c_totalContacts c') * int (k (c_id c') + startedBy (c_id c') op d)"
    using r t z dr by blast
qed

lemma performAll_counted:
  "counted k d \<Longrightarrow> counted (\<lambda>i. k i + workerRuns lib i ops d) (performAll lib ops d)"
proof (induction ops arbitrary: k d)
  case Nil
  then show ?case by simp
next
  case (Cons op ops)
  have e: "(\<lambda>i. k i + startedBy i op d + workerRuns lib i ops (perform lib op d))
             = (\<lambda>i. k i + workerRuns lib i (op # ops) d)"
    by (rule ext) (simp add: add.assoc)
  from Cons.IH [OF perform_counted [OF Cons.prems, of op lib]]
  show ?case unfolding e by simp
qed

lemma fresh_counted: "freshCounters d \<Longrightarrow> counted (\<lambda>i. 0) d"
  by (simp add: freshCounters_def counted_def)

lemmas run_defs = startCampaign_def pauseCampaign_def updateCampaign_def
  processCampaignMessages_def processContact_def sendAttempt_def
  recordFailure_def markCompleted_def campaign_update_def campaignContact_update_def
  message_create_def andThen_def findCampaign_def contactsOf_def templateOf_def
  campaignContact_countPending_def rowKey_def editCampaign_def campaignMessage_def orDefault_def
  putCampaign_def editErrors_def scheduleDate_def status_defs exampleLib_def

lemma restart_campaigns:
  "campaigns (performAll exampleLib restartOps sixDb) =
     [(newCampaign ''c1'' ''u1'' RUNNING 6)\<lparr>c_startedAt := Some 20, c_sentCount := 10\<rparr>]"
  by (simp add: run_defs restartOps_def sixDb_def newCampaign_def pendingRow_def)

text \<open>
  C2, as the claim has it, fails. The worker takes the first five rows of the campaign
  whatever their status, and an edit puts a paused campaign back to DRAFT, from where it
  starts again: start, pause, edit, start on a campaign of six contacts leaves
  \<open>sentCount = 10\<close> and \<open>failedCount = 0\<close> with \<open>totalContacts = 6\<close>.
\<close>

theorem counters_bounded_counterexample:
  "map c_totalContacts (campaigns sixDb) = [6]
   \<and> map c_sentCount (campaigns (performAll exampleLib restartOps sixDb)) = [10]
   \<and> map c_failedCount (campaigns (performAll exampleLib restartOps sixDb)) = [0]
   \<and> map c_totalContacts (campaigns (performAll exampleLib restartOps sixDb)) = [6]
   \<and> \<not> (c_sentCount (hd (campaigns (performAll exampleLib restartOps sixDb)))
          + c_failedCount (hd (campaigns (performAll exampleLib restartOps sixDb)))
          \<le> c_totalContacts (hd (campaigns (performAll exampleLib restartOps sixDb))))"
  by (simp add: restart_campaigns) (simp add: sixDb_def newCampaign_def)

text \<open>
  C2, amended. In a store whose campaigns were created with zero counters and
  \<open>totalContacts\<close> equal to their number of contact rows, after any run of start (with
  the dispatch worker), pause, edit and status-ingestion requests every campaign has
  \<open>deliveredCount = 0\<close> and \<open>readCount = 0\<close>, no operation writes them, so
  \<open>deliveredCount \<le> sentCount\<close> and \<open>readCount \<le> deliveredCount\<close>; and
  \<open>sentCount + failedCount\<close> is at most \<open>min 5 totalContacts\<close> times the number of
  start requests for the campaign that the route accepted in the run (a start that is
  answered 400, 404 or 500 does not count), so at most \<open>totalContacts\<close> when the
  campaign was started at most once.
\<close>

theorem counters_after_operations:
  assumes "freshCounters d" and "c \<in> set (campaigns (performAll lib ops d))"
  shows "c_deliveredCount c \<le> c_sentCount c \<and> c_readCount c \<le> c_deliveredCount c
       \<and> c_deliveredCount c = 0 \<and> c_readCount c = 0
       \<and> c_sentCount c + c_failedCount c
           \<le> min 5 (c_totalContacts c) * int (workerRuns lib (c_id c) ops d)
       \<and> (workerRuns lib (c_id c) ops d \<le> 1 \<longrightarrow>
            c_sentCount c + c_failedCount c \<le> c_totalContacts c)"
proof -
  have "counted (\<lambda>i. 0 + workerRuns lib i ops d) (performAll lib ops d)"
    by (rule performAll_counted [OF fresh_counted [OF assms(1)]])
  then have cn: "counted (\<lambda>i. workerRuns lib i ops d) (performAll lib ops d)" by simp
  have i: "c_deliveredCount c = 0" "c_readCount c = 0" "0 \<le> c_sentCount c"
    "c_totalContacts c = int (length (contactsOf (performAll lib ops d) (c_id c)))"
    "c_sentCount c + c_failedCount c
       \<le> min 5 (c_totalContacts c) * int (workerRuns lib (c_id c) ops d)"
    by (rule countedD [OF cn assms(2)])+
  have nn: "0 \<le> c_totalContacts c" unfolding i(4) by simp
  have "c_sentCount c + c_failedCount c \<le> c_totalContacts c"
    if le: "workerRuns lib (c_id c) ops d \<le> 1"
  proof -
    have "min 5 (c_totalContacts c) * int (workerRuns lib (c_id c) ops d)
          \<le> min 5 (c_totalContacts c) * 1"
      using le nn by (intro mult_left_mono) simp_all
    then show ?thesis using i(5) by simp
  qed
  then show ?thesis using i by simp
qed

lemma once_campaigns:
  "campaigns (performAll exampleLib onceOps sixDb) =
     [(newCampaign ''c1'' ''u1'' PAUSED 6)\<lparr>c_startedAt := Some 10, c_sentCount := 4,
        c_failedCount := 1\<rparr>]"
  by (simp add: run_defs onceOps_def sixDb_def newCampaign_def pendingRow_def cbDelivered_def)

lemma twice_campaigns:
  "campaigns (performAll exampleLib twiceOps sixDb) =
     [(newCampaign ''c1'' ''u1'' RUNNING 6)\<lparr>c_startedAt := Some 10, c_sentCount := 5\<rparr>]"
  by (simp add: run_defs twiceOps_def sixDb_def newCampaign_def pendingRow_def)

lemma once_runs: "workerRuns exampleLib ''c1'' onceOps sixDb = 1"
  by (simp add: startedBy_def onceOps_def startCampaign_def findCampaign_def
      campaign_update_def sixDb_def newCampaign_def)

lemma twice_runs: "workerRuns exampleLib ''c1'' twiceOps sixDb = 1"
  by (simp add: startedBy_def twiceOps_def run_defs sixDb_def newCampaign_def pendingRow_def)

lemma fresh_sixDb: "freshCounters sixDb"
  by (simp add: freshCounters_def sixDb_def newCampaign_def contactsOf_def pendingRow_def)

theorem counters_after_operations_witness:
  "freshCounters sixDb \<and> workerRuns exampleLib ''c1'' onceOps sixDb = 1
   \<and> map c_sentCount (campaigns (performAll exampleLib onceOps sixDb)) = [4]
   \<and> map c_failedCount (campaigns (performAll exampleLib onceOps sixDb)) = [1]
   \<and> map c_deliveredCount (campaigns (performAll exampleLib onceOps sixDb)) = [0]
   \<and> map c_readCount (campaigns (performAll exampleLib onceOps sixDb)) = [0]
   \<and> c_sentCount (hd (campaigns (performAll exampleLib onceOps sixDb)))
       + c_failedCount (hd (campaigns (performAll exampleLib onceOps sixDb)))
       \<le> c_totalContacts (hd (campaigns (performAll exampleLib onceOps sixDb)))
   \<and> workerRuns exampleLib ''c1'' twiceOps sixDb = 1
   \<and> c_sentCount (hd (campaigns (performAll exampleLib twiceOps sixDb)))
       + c_failedCount (hd (campaigns (performAll exampleLib twiceOps sixDb)))
       \<le> c_totalContacts (hd (campaigns (performAll exampleLib twiceOps sixDb)))"
proof -
  have m: "hd (campaigns (performAll exampleLib onceOps sixDb))
             \<in> set (campaigns (performAll exampleLib onceOps sixDb))"
    by (simp add: once_campaigns)
  have m': "hd (campaigns (performAll exampleLib twiceOps sixDb))
             \<in> set (campaigns (performAll exampleLib twiceOps sixDb))"
    by (simp add: twice_campaigns)
  have i: "c_id (hd (campaigns (performAll exampleLib onceOps sixDb))) = ''c1''"
    by (simp add: once_campaigns newCampaign_def)
  have i': "c_id (hd (campaigns (performAll exampleLib twiceOps sixDb))) = ''c1''"
    by (simp add: twice_campaigns newCampaign_def)
  show ?thesis
    using counters_after_operations [OF fresh_sixDb m]
      counters_after_operations [OF fresh_sixDb m'] once_runs twice_runs i i' fresh_sixDb
    by (simp add: once_campaigns newCampaign_def)
qed

section \<open>Campaign state machine: theorems\<close>

lemma find_mapped: "find P (map g xs) = map_option g (find (P \<circ> g) xs)"
  by (induction xs) auto

lemma findCampaign_after_update:
  assumes "findCampaign d cid uid = Some c"
    and "\<And>x. c_id (f x) = c_id x \<and> c_userId (f x) = c_userId x"
  shows "findCampaign (d\<lparr>campaigns := map (\<lambda>x. if c_id x = cid then f x else x) (campaigns d)\<rparr>)
           cid uid = Some (f c)"
proof -
  let ?P = "\<lambda>c. c_id c = cid \<and> c_userId c = uid"
  let ?g = "\<lambda>x. if c_id x = cid then f x else x"
  have "?P \<circ> ?g = ?P" using assms(2) by (auto simp: fun_eq_iff)
  then have "find ?P (map ?g (campaigns d)) = map_option ?g (find ?P (campaigns d))"
    by (simp add: find_mapped)
  also have "\<dots> = Some (f c)"
    using assms(1) findCampaign_member [OF assms(1)] by (simp add: findCampaign_def)
  finally show ?thesis by (simp add: findCampaign_def)
qed

lemma list_all2_find:
  assumes "list_all2 R xs ys" and "\<And>x y. R x y \<Longrightarrow> P x = P y" and "find P xs = Some x"
  shows "\<exists>y. find P ys = Some y \<and> R x y"
  using assms
proof (induction arbitrary: x rule: list_all2_induct)
  case Nil
  then show ?case by simp
next
  case (Cons a xs b ys)
  show ?case
  proof (cases "P a")
    case True
    then show ?thesis using Cons by auto
  next
    case False
    then have "\<not> P b" using Cons.hyps(1) Cons.prems(1) by blast
    then show ?thesis using False Cons by auto
  qed
qed

lemma updateCampaign_locked:
  assumes "findCampaign d cid uid = Some c"
    and "c_status c = RUNNING \<or> c_status c = COMPLETED"
  shows "updateCampaign cid uid nm ds sc d =
           (Response 400 (ErrorBody ''Cannot edit running or completed campaign''), d)"
  using assms by (auto simp: updateCampaign_def)

lemma updateCampaign_accepted:
  assumes "findCampaign d cid uid = Some c"
    and "c_status c \<noteq> RUNNING" and "c_status c \<noteq> COMPLETED"
  shows "updateCampaign cid uid nm ds sc d =
           (Response 200 (CampaignBody (editCampaign nm ds sc c)),
            d\<lparr>campaigns := map (\<lambda>x. if c_id x = cid then editCampaign nm ds sc x else x)
                               (campaigns d)\<rparr>)"
  using assms findCampaign_id_exists [OF assms(1)]
  by (simp add: updateCampaign_def campaign_update_def)

lemma startCampaign_rejected:
  assumes "findCampaign d cid uid = Some c"
    and "c_status c \<noteq> DRAFT" and "c_status c \<noteq> SCHEDULED"
  shows "startCampaign cid uid now as d =
           (Response 400 (ErrorBody ''Campaign cannot be started''), d)"
  using assms by (simp add: startCampaign_def)

lemma startCampaign_accepted:
  assumes "findCampaign d cid uid = Some c"
    and "c_status c = DRAFT \<or> c_status c = SCHEDULED"
  shows "startCampaign cid uid now as d =
           (Response 200 (MessageBody ''Campaign started successfully''),
            processCampaignMessages
              \<lparr>snap_campaign = c, snap_contacts = contactsOf d cid,
               snap_template = templateOf d c\<rparr> now as
              (d\<lparr>campaigns := map (\<lambda>x. if c_id x = cid
                                         then x\<lparr>c_status := RUNNING, c_startedAt := Some now\<rparr>
                                         else x) (campaigns d)\<rparr>))"
  using assms findCampaign_id_exists [OF assms(1)]
  by (auto simp: startCampaign_def campaign_update_def)

lemma pauseCampaign_rejected:
  assumes "findCampaign d cid uid = Some c" and "c_status c \<noteq> RUNNING"
  shows "pauseCampaign cid uid d = (Response 400 (ErrorBody ''Campaign is not running''), d)"
  using assms by (simp add: pauseCampaign_def)

lemma editCampaign_ids: "c_id (editCampaign nm ds sc x) = c_id x \<and> c_userId (editCampaign nm ds sc x) = c_userId x"
  by (simp add: editCampaign_def)

lemma startCampaign_status_after:
  assumes "findCampaign d cid uid = Some c"
    and "c_status c = DRAFT \<or> c_status c = SCHEDULED"
  shows "\<exists>c'. findCampaign (snd (startCampaign cid uid now as d)) cid uid = Some c'
           \<and> (c_status c' = RUNNING \<or> c_status c' = COMPLETED \<or> c_status c' = FAILED)"
proof -
  let ?f = "\<lambda>x. x\<lparr>c_status := RUNNING, c_startedAt := Some now\<rparr>"
  let ?d1 = "d\<lparr>campaigns := map (\<lambda>x. if c_id x = cid then ?f x else x) (campaigns d)\<rparr>"
  let ?snap = "\<lparr>snap_campaign = c, snap_contacts = contactsOf d cid,
                 snap_template = templateOf d c\<rparr>"
  let ?d2 = "processCampaignMessages ?snap now as ?d1"
  let ?P = "\<lambda>c. c_id c = cid \<and> c_userId c = uid"
  have s: "snd (startCampaign cid uid now as d) = ?d2"
    by (simp add: startCampaign_accepted [OF assms])
  have f1: "find ?P (campaigns ?d1) = Some (?f c)"
    using findCampaign_after_update [OF assms(1), of ?f] by (simp add: findCampaign_def)
  have cid: "c_id (snap_campaign ?snap) = cid"
    using findCampaign_member [OF assms(1)] by simp
  have w: "list_all2 (campStep cid (min 5 (length (contactsOf d cid))))
             (campaigns ?d1) (campaigns ?d2)"
    using processCampaignMessages_step [where snap = ?snap and d = ?d1 and now = now and as = as]
      cid by (simp add: workerStep_def)
  have "\<exists>y. find ?P (campaigns ?d2) = Some y
          \<and> campStep cid (min 5 (length (contactsOf d cid))) (?f c) y"
    by (rule list_all2_find [OF w _ f1]) (auto simp: campStep_def split: if_splits)
  then obtain y where y: "find ?P (campaigns ?d2) = Some y"
    and st: "campStep cid (min 5 (length (contactsOf d cid))) (?f c) y" by blast
  have "c_id (?f c) = cid" using findCampaign_member [OF assms(1)] by simp
  then have "c_status y = RUNNING \<or> c_status y = COMPLETED \<or> c_status y = FAILED"
    using st by (auto simp: campStep_def)
  then show ?thesis using y s by (simp add: findCampaign_def)
qed

lemma findCampaign_campaignIn:
  "findCampaign (campaignIn st) ''c1'' ''u1'' = Some (newCampaign ''c1'' ''u1'' st 0)"
  by (simp add: findCampaign_def campaignIn_def newCampaign_def)

lemma findCampaign_sixDb:
  "findCampaign sixDb ''c1'' ''u1'' = Some (newCampaign ''c1'' ''u1'' DRAFT 6)"
  by (simp add: findCampaign_def sixDb_def newCampaign_def)

text \<open>
  C7. For a campaign that the start route finds: in any status other than DRAFT and
  SCHEDULED the route answers 400 "Campaign cannot be started" (the InvalidTransition
  error) and the store is what it was; the route answers "Campaign started successfully"
  exactly when the status is DRAFT or SCHEDULED; and after such a start, with the worker
  run to its end, a second start is answered 400 and changes nothing.
\<close>

theorem start_transition:
  assumes "findCampaign d cid uid = Some c"
  shows "(c_status c \<noteq> DRAFT \<and> c_status c \<noteq> SCHEDULED \<longrightarrow>
            startCampaign cid uid now as d =
              (Response 400 (ErrorBody ''Campaign cannot be started''), d))
       \<and> (fst (startCampaign cid uid now as d)
             = Response 200 (MessageBody ''Campaign started successfully'')
            \<longleftrightarrow> c_status c = DRAFT \<or> c_status c = SCHEDULED)
       \<and> (c_status c = DRAFT \<or> c_status c = SCHEDULED \<longrightarrow>
            startCampaign cid uid now' as' (snd (startCampaign cid uid now as d)) =
              (Response 400 (ErrorBody ''Campaign cannot be started''),
               snd (startCampaign cid uid now as d)))"
proof (intro conjI impI)
  assume "c_status c \<noteq> DRAFT \<and> c_status c \<noteq> SCHEDULED"
  then show "startCampaign cid uid now as d =
      (Response 400 (ErrorBody ''Campaign cannot be started''), d)"
    using startCampaign_rejected [OF assms] by simp
next
  show "fst (startCampaign cid uid now as d)
          = Response 200 (MessageBody ''Campaign started successfully'')
        \<longleftrightarrow> c_status c = DRAFT \<or> c_status c = SCHEDULED"
  proof (cases "c_status c = DRAFT \<or> c_status c = SCHEDULED")
    case True
    then show ?thesis by (simp add: startCampaign_accepted [OF assms True])
  next
    case False
    then show ?thesis using startCampaign_rejected [OF assms] by simp
  qed
next
  assume a: "c_status c = DRAFT \<or> c_status c = SCHEDULED"
  from startCampaign_status_after [OF assms a, of now as]
  obtain c' where f: "findCampaign (snd (startCampaign cid uid now as d)) cid uid = Some c'"
    and st: "c_status c' = RUNNING \<or> c_status c' = COMPLETED \<or> c_status c' = FAILED"
    by blast
  have "c_status c' \<noteq> DRAFT" "c_status c' \<noteq> SCHEDULED" using st by auto
  from startCampaign_rejected [OF f this]
  show "startCampaign cid uid now' as' (snd (startCampaign cid uid now as d)) =
      (Response 400 (ErrorBody ''Campaign cannot be started''),
       snd (startCampaign cid uid now as d))" .
qed

theorem start_transition_witness:
  "fst (startCampaign ''c1'' ''u1'' 10 [] sixDb)
     = Response 200 (MessageBody ''Campaign started successfully'')
   \<and> startCampaign ''c1'' ''u1'' 20 [] (snd (startCampaign ''c1'' ''u1'' 10 [] sixDb))
     = (Response 400 (ErrorBody ''Campaign cannot be started''),
        snd (startCampaign ''c1'' ''u1'' 10 [] sixDb))
   \<and> startCampaign ''c1'' ''u1'' 10 [] (campaignIn COMPLETED)
     = (Response 400 (ErrorBody ''Campaign cannot be started''), campaignIn COMPLETED)
   \<and> startCampaign ''c1'' ''u1'' 10 [] (campaignIn RUNNING)
     = (Response 400 (ErrorBody ''Campaign cannot be started''), campaignIn RUNNING)"
  using start_transition [OF findCampaign_sixDb, of 10 "[]" 20 "[]"]
    start_transition [OF findCampaign_campaignIn [of COMPLETED], of 10 "[]" 20 "[]"]
    start_transition [OF findCampaign_campaignIn [of RUNNING], of 10 "[]" 20 "[]"]
  by (simp add: newCampaign_def)

text \<open>
  C8, as the claim has it, fails: the edit guard names RUNNING and COMPLETED only. An edit
  of a PAUSED campaign is answered 200 and written.
\<close>

theorem edit_only_draft_or_scheduled_counterexample:
  "map c_status (campaigns (campaignIn PAUSED)) = [PAUSED]
   \<and> fst (updateCampaign ''c1'' ''u1'' (Some ''Relaunch'') None None (campaignIn PAUSED))
       = Response 200 (CampaignBody
           ((newCampaign ''c1'' ''u1'' PAUSED 0)\<lparr>c_name := ''Relaunch'', c_status := DRAFT\<rparr>))
   \<and> map c_name (campaigns (snd (updateCampaign ''c1'' ''u1'' (Some ''Relaunch'') None None
        (campaignIn PAUSED)))) = [''Relaunch'']"
  by (simp add: updateCampaign_def findCampaign_def campaign_update_def editCampaign_def
      campaignIn_def newCampaign_def)

text \<open>
  C8, amended. For a campaign that the edit route \<open>PUT /:id\<close> finds. A request that
  \<open>validateRequest\<close> answers itself gets that answer and the store is what it was. For
  a request that it passes on: in status RUNNING or COMPLETED the route answers 400
  "Cannot edit running or completed campaign" (the CampaignLocked error) and the store is
  what it was; in every other status (DRAFT, SCHEDULED, PAUSED, FAILED) the edit is
  accepted when \<open>scheduledAt\<close> is absent, empty or a date that the store takes, and
  the campaign then carries the name as \<open>trim()\<close> left it, the description and the
  schedule, with status SCHEDULED (a schedule is given) or DRAFT; with a
  \<open>scheduledAt\<close> that is no such date the route answers 500 and the store is what
  it was.
\<close>

theorem edit_guard:
  assumes "findCampaign d cid uid = Some c"
  shows "(\<forall>refusal. lib_validateRequest lib (editErrors lib nm sc) = Some refusal \<longrightarrow>
            putCampaign lib cid uid nm ds sc d = (refusal, d))
       \<and> (lib_validateRequest lib (editErrors lib nm sc) = None \<longrightarrow>
            (c_status c = RUNNING \<or> c_status c = COMPLETED \<longrightarrow>
               putCampaign lib cid uid nm ds sc d =
                 (Response 400 (ErrorBody ''Cannot edit running or completed campaign''), d))
          \<and> (c_status c \<noteq> RUNNING \<and> c_status c \<noteq> COMPLETED \<longrightarrow>
               (case scheduleDate lib sc of
                  None \<Rightarrow>
                    putCampaign lib cid uid nm ds sc d =
                      (Response 500 (ErrorBody ''Failed to update campaign''), d)
                | Some date \<Rightarrow>
                    fst (putCampaign lib cid uid nm ds sc d)
                      = Response 200
                          (CampaignBody (editCampaign (map_option (lib_trim lib) nm) ds date c))
                  \<and> findCampaign (snd (putCampaign lib cid uid nm ds sc d)) cid uid
                      = Some (editCampaign (map_option (lib_trim lib) nm) ds date c)
                  \<and> c_status (editCampaign (map_option (lib_trim lib) nm) ds date c)
                      = (if date \<noteq> None then SCHEDULED else DRAFT))))"
proof (intro conjI allI impI)
  fix refusal assume "lib_validateRequest lib (editErrors lib nm sc) = Some refusal"
  then show "putCampaign lib cid uid nm ds sc d = (refusal, d)"
    by (simp add: putCampaign_def)
next
  assume v: "lib_validateRequest lib (editErrors lib nm sc) = None"
    and l: "c_status c = RUNNING \<or> c_status c = COMPLETED"
  show "putCampaign lib cid uid nm ds sc d =
      (Response 400 (ErrorBody ''Cannot edit running or completed campaign''), d)"
  proof (cases "scheduleDate lib sc")
    case None
    then show ?thesis using v l assms by (auto simp: putCampaign_def)
  next
    case (Some date)
    then show ?thesis using v updateCampaign_locked [OF assms l] by (simp add: putCampaign_def)
  qed
next
  assume v: "lib_validateRequest lib (editErrors lib nm sc) = None"
    and a: "c_status c \<noteq> RUNNING \<and> c_status c \<noteq> COMPLETED"
  let ?nm = "map_option (lib_trim lib) nm"
  show "case scheduleDate lib sc of
          None \<Rightarrow>
            putCampaign lib cid uid nm ds sc d =
              (Response 500 (ErrorBody ''Failed to update campaign''), d)
        | Some date \<Rightarrow>
            fst (putCampaign lib cid uid nm ds sc d)
              = Response 200 (CampaignBody (editCampaign ?nm ds date c))
          \<and> findCampaign (snd (putCampaign lib cid uid nm ds sc d)) cid uid
              = Some (editCampaign ?nm ds date c)
          \<and> c_status (editCampaign ?nm ds date c)
              = (if date \<noteq> None then SCHEDULED else DRAFT)"
  proof (cases "scheduleDate lib sc")
    case None
    then show ?thesis using v a assms by (simp add: putCampaign_def)
  next
    case (Some date)
    have p: "putCampaign lib cid uid nm ds sc d = updateCampaign cid uid ?nm ds date d"
      using v Some by (simp add: putCampaign_def)
    have "findCampaign (snd (updateCampaign cid uid ?nm ds date d)) cid uid
            = Some (editCampaign ?nm ds date c)"
      using a findCampaign_after_update [OF assms, of "editCampaign ?nm ds date"]
      by (simp add: updateCampaign_accepted [OF assms] editCampaign_ids)
    moreover have "fst (updateCampaign cid uid ?nm ds date d)
            = Response 200 (CampaignBody (editCampaign ?nm ds date c))"
      using a by (simp add: updateCampaign_accepted [OF assms])
    moreover have "c_status (editCampaign ?nm ds date c)
            = (if date \<noteq> None then SCHEDULED else DRAFT)"
      by (simp add: editCampaign_def)
    ultimately show ?thesis using Some p by simp
  qed
qed

theorem edit_guard_witness:
  "putCampaign exampleLib ''c1'' ''u1'' (Some '' Relaunch '') None None (campaignIn RUNNING) =
     (Response 400 (ErrorBody ''Cannot edit running or completed campaign''), campaignIn RUNNING)
   \<and> putCampaign exampleLib ''c1'' ''u1'' (Some '' Relaunch '') None None
       (campaignIn COMPLETED) =
     (Response 400 (ErrorBody ''Cannot edit running or completed campaign''),
      campaignIn COMPLETED)
   \<and> findCampaign (snd (putCampaign exampleLib ''c1'' ''u1'' (Some '' Relaunch '') None
        (Some ''2030-01-01T00:00:00Z'') (campaignIn DRAFT))) ''c1'' ''u1''
       = Some ((newCampaign ''c1'' ''u1'' SCHEDULED 0)
                 \<lparr>c_name := ''Relaunch'', c_scheduledAt := Some 1893456000000\<rparr>)
   \<and> findCampaign (snd (putCampaign exampleLib ''c1'' ''u1'' None (Some ''Again'') None
        (campaignIn FAILED))) ''c1'' ''u1''
       = Some ((newCampaign ''c1'' ''u1'' DRAFT 0)\<lparr>c_description := Some ''Again''\<rparr>)
   \<and> putCampaign exampleLib ''c1'' ''u1'' (Some ''  '') None None (campaignIn PAUSED) =
       (Response 400 (ErrorBody ''Validation failed''), campaignIn PAUSED)
   \<and> putCampaign laxLib ''c1'' ''u1'' None None (Some ''tomorrow'') (campaignIn PAUSED) =
       (Response 500 (ErrorBody ''Failed to update campaign''), campaignIn PAUSED)"
proof -
  have v: "lib_validateRequest exampleLib (editErrors exampleLib (Some '' Relaunch '') None)
             = None"
    "lib_validateRequest exampleLib
       (editErrors exampleLib (Some '' Relaunch '') (Some ''2030-01-01T00:00:00Z'')) = None"
    "lib_validateRequest exampleLib (editErrors exampleLib None None) = None"
    "lib_validateRequest exampleLib (editErrors exampleLib (Some ''  '') None)
       = Some (Response 400 (ErrorBody ''Validation failed''))"
    "lib_validateRequest laxLib (editErrors laxLib None (Some ''tomorrow'')) = None"
    by (simp_all add: exampleLib_def laxLib_def editErrors_def trimBlanks_def)
  have s: "scheduleDate exampleLib None = Some None"
    "scheduleDate exampleLib (Some ''2030-01-01T00:00:00Z'') = Some (Some 1893456000000)"
    "scheduleDate laxLib (Some ''tomorrow'') = None"
    by (simp_all add: exampleLib_def laxLib_def scheduleDate_def)
  have t: "lib_trim exampleLib '' Relaunch '' = ''Relaunch''"
    by (simp add: exampleLib_def trimBlanks_def)
  show ?thesis
    using edit_guard [OF findCampaign_campaignIn [of RUNNING],
        of exampleLib "Some '' Relaunch ''" None None]
      edit_guard [OF findCampaign_campaignIn [of COMPLETED],
        of exampleLib "Some '' Relaunch ''" None None]
      edit_guard [OF findCampaign_campaignIn [of DRAFT],
        of exampleLib "Some '' Relaunch ''" "Some ''2030-01-01T00:00:00Z''" None]
      edit_guard [OF findCampaign_campaignIn [of FAILED],
        of exampleLib None None "Some ''Again''"]
      edit_guard [OF findCampaign_campaignIn [of PAUSED],
        of exampleLib "Some ''  ''" None None]
      edit_guard [OF findCampaign_campaignIn [of PAUSED],
        of laxLib None "Some ''tomorrow''" None]
    by (simp add: v s t newCampaign_def editCampaign_def)
qed

text \<open>
  C6, as the claim has it, fails for FAILED: an edit of a FAILED campaign is accepted and
  sets its status to DRAFT, or to SCHEDULED when a schedule is given.
\<close>

theorem terminal_states_counterexample:
  "map c_status (campaigns (campaignIn FAILED)) = [FAILED]
   \<and> map c_status (campaigns (snd (updateCampaign ''c1'' ''u1'' None None None
        (campaignIn FAILED)))) = [DRAFT]
   \<and> map c_status (campaigns (snd (updateCampaign ''c1'' ''u1'' None None (Some 99)
        (campaignIn FAILED)))) = [SCHEDULED]"
  by (simp add: updateCampaign_def findCampaign_def campaign_update_def editCampaign_def
      campaignIn_def newCampaign_def)

text \<open>
  C6, amended. COMPLETED is terminal: start, pause and edit of a COMPLETED campaign leave
  the store as it was. A FAILED campaign is left as it was by start and pause, but an
  edit is accepted on it and sets its status to SCHEDULED (a schedule is given) or
  DRAFT.
\<close>

theorem terminal_states:
  assumes "findCampaign d cid uid = Some c"
  shows "(c_status c = COMPLETED \<longrightarrow>
            snd (startCampaign cid uid now as d) = d
          \<and> snd (pauseCampaign cid uid d) = d
          \<and> snd (updateCampaign cid uid nm ds sc d) = d)
       \<and> (c_status c = FAILED \<longrightarrow>
            snd (startCampaign cid uid now as d) = d
          \<and> snd (pauseCampaign cid uid d) = d
          \<and> map_option c_status (findCampaign (snd (updateCampaign cid uid nm ds sc d)) cid uid)
              = Some (if sc \<noteq> None then SCHEDULED else DRAFT))"
proof (intro conjI impI)
  assume a: "c_status c = COMPLETED"
  show "snd (startCampaign cid uid now as d) = d"
    using a by (simp add: startCampaign_rejected [OF assms])
  show "snd (pauseCampaign cid uid d) = d"
    using a by (simp add: pauseCampaign_rejected [OF assms])
  show "snd (updateCampaign cid uid nm ds sc d) = d"
    using a by (simp add: updateCampaign_locked [OF assms])
next
  assume a: "c_status c = FAILED"
  show "snd (startCampaign cid uid now as d) = d"
    using a by (simp add: startCampaign_rejected [OF assms])
  show "snd (pauseCampaign cid uid d) = d"
    using a by (simp add: pauseCampaign_rejected [OF assms])
  show "map_option c_status (findCampaign (snd (updateCampaign cid uid nm ds sc d)) cid uid)
      = Some (if sc \<noteq> None then SCHEDULED else DRAFT)"
    using a findCampaign_after_update [OF assms, of "editCampaign nm ds sc"]
    by (simp add: updateCampaign_accepted [OF assms] editCampaign_ids)
       (simp add: editCampaign_def)
qed

theorem terminal_states_witness:
  "snd (startCampaign ''c1'' ''u1'' 10 [] (campaignIn COMPLETED)) = campaignIn COMPLETED
   \<and> snd (pauseCampaign ''c1'' ''u1'' (campaignIn COMPLETED)) = campaignIn COMPLETED
   \<and> snd (updateCampaign ''c1'' ''u1'' (Some ''Relaunch'') None None (campaignIn COMPLETED))
       = campaignIn COMPLETED
   \<and> snd (startCampaign ''c1'' ''u1'' 10 [] (campaignIn FAILED)) = campaignIn FAILED
   \<and> snd (pauseCampaign ''c1'' ''u1'' (campaignIn FAILED)) = campaignIn FAILED
   \<and> map_option c_status (findCampaign (snd (updateCampaign ''c1'' ''u1'' (Some ''Relaunch'')
        None None (campaignIn FAILED))) ''c1'' ''u1'') = Some DRAFT"
  using terminal_states [OF findCampaign_campaignIn [of COMPLETED],
      of 10 "[]" "Some ''Relaunch''" None None]
    terminal_states [OF findCampaign_campaignIn [of FAILED],
      of 10 "[]" "Some ''Relaunch''" None None]
  by (simp add: newCampaign_def)

section \<open>Dispatch worker: what a run does\<close>

lemma rowAfter_key [simp]: "rowKey (rowAfter now a r) = rowKey r"
  by (cases a) (simp_all add: rowAfter_def rowKey_def)

lemma keys_after_row_update:
  assumes "\<And>r. rowKey (f r) = rowKey r"
  shows "rowKey ` set (map (\<lambda>r. if rowKey r = k then f r else r) rows) = rowKey ` set rows"
proof -
  have "map rowKey (map (\<lambda>r. if rowKey r = k then f r else r) rows) = map rowKey rows"
    using assms by (induction rows) auto
  then have "set (map rowKey (map (\<lambda>r. if rowKey r = k then f r else r) rows))
      = set (map rowKey rows)" by (rule arg_cong)
  then show ?thesis by (simp only: set_map)
qed

lemma campaignContact_update_Done:
  assumes "(cid, ctid) \<in> rowKey ` set (campaignContacts d)"
  shows "campaignContact_update cid ctid f d =
     Done (d\<lparr>campaignContacts :=
               map (\<lambda>r. if rowKey r = (cid, ctid) then f r else r) (campaignContacts d)\<rparr>)"
  using assms by (simp add: campaignContact_update_def)

lemma campaign_update_Done:
  assumes "cid \<in> c_id ` set (campaigns d)"
  shows "campaign_update cid f d =
     Done (d\<lparr>campaigns := map (\<lambda>c. if c_id c = cid then f c else c) (campaigns d)\<rparr>)"
  using assms by (simp add: campaign_update_def)

lemma map_if_twice:
  assumes "\<And>r. key (g r) = key r"
  shows "map (\<lambda>r. if key r = k then f r else r) (map (\<lambda>r. if key r = k then g r else r) rows)
       = map (\<lambda>r. if key r = k then f (g r) else r) rows"
  using assms by (induction rows) auto

lemma recordFailure_exact:
  assumes "c_id (snap_campaign snap) \<in> c_id ` set (campaigns d)"
    and "(c_id (snap_campaign snap), cc_contactId cc) \<in> rowKey ` set (campaignContacts d)"
  shows "recordFailure snap cc now d =
     Done (d\<lparr>campaignContacts :=
                map (\<lambda>r. if rowKey r = (c_id (snap_campaign snap), cc_contactId cc)
                          then r\<lparr>cc_status := CC_FAILED, cc_failedAt := Some now,
                                 cc_errorMessage := Some ''Failed to send message''\<rparr>
                          else r) (campaignContacts d),
              campaigns :=
                map (\<lambda>x. if c_id x = c_id (snap_campaign snap)
                          then x\<lparr>c_failedCount := c_failedCount x + 1\<rparr> else x)
                  (campaigns d)\<rparr>)"
  unfolding recordFailure_def
  by (simp add: campaignContact_update_Done [OF assms(2)] andThen_def
      campaign_update_Done assms(1))

lemma sendAttempt_exact:
  assumes "c_id (snap_campaign snap) \<in> c_id ` set (campaigns d)"
    and "(c_id (snap_campaign snap), cc_contactId cc) \<in> rowKey ` set (campaignContacts d)"
  shows "sendAttempt snap cc now a d =
     (case a of
        Succeeds \<Rightarrow>
          Done (d\<lparr>messages := messages d @ [campaignMessage snap cc],
                  campaignContacts :=
                    map (\<lambda>r. if rowKey r = (c_id (snap_campaign snap), cc_contactId cc)
                              then r\<lparr>cc_status := CC_SENT, cc_sentAt := Some now\<rparr> else r)
                      (campaignContacts d),
                  campaigns :=
                    map (\<lambda>x. if c_id x = c_id (snap_campaign snap)
                              then x\<lparr>c_sentCount := c_sentCount x + 1\<rparr> else x)
                      (campaigns d)\<rparr>)
      | FailsAtMessageCreate \<Rightarrow> Thrown d
      | FailsAtContactUpdate \<Rightarrow>
          Thrown (d\<lparr>messages := messages d @ [campaignMessage snap cc]\<rparr>)
      | FailsAtCounterUpdate \<Rightarrow>
          Thrown (d\<lparr>messages := messages d @ [campaignMessage snap cc],
                    campaignContacts :=
                      map (\<lambda>r. if rowKey r = (c_id (snap_campaign snap), cc_contactId cc)
                                then r\<lparr>cc_status := CC_SENT, cc_sentAt := Some now\<rparr> else r)
                        (campaignContacts d)\<rparr>))"
proof -
  let ?d1 = "d\<lparr>messages := messages d @ [campaignMessage snap cc]\<rparr>"
  have k1: "(c_id (snap_campaign snap), cc_contactId cc) \<in> rowKey ` set (campaignContacts ?d1)"
    using assms(2) by simp
  note u1 = campaignContact_update_Done [OF k1]
  show ?thesis
    by (cases a)
       (simp_all add: sendAttempt_def andThen_def message_create_def u1
          campaign_update_Done assms(1))
qed

lemma processContact_exact:
  assumes "c_id (snap_campaign snap) \<in> c_id ` set (campaigns d)"
    and "(c_id (snap_campaign snap), cc_contactId cc) \<in> rowKey ` set (campaignContacts d)"
  shows "processContact snap cc now a d =
     Done (d\<lparr>messages := messages d @ (if a = FailsAtMessageCreate then []
                                          else [campaignMessage snap cc]),
              campaignContacts :=
                map (\<lambda>r. if rowKey r = (c_id (snap_campaign snap), cc_contactId cc)
                          then rowAfter now a r else r) (campaignContacts d),
              campaigns :=
                map (\<lambda>x. if c_id x = c_id (snap_campaign snap)
                          then campAfter (if a = Succeeds then 1 else 0)
                                 (if a = Succeeds then 0 else 1) x
                          else x) (campaigns d)\<rparr>)"
proof (cases a)
  case Succeeds
  then show ?thesis
    by (simp add: processContact_def sendAttempt_exact [OF assms] rowAfter_def campAfter_def)
next
  case FailsAtMessageCreate
  then show ?thesis
    by (simp add: processContact_def sendAttempt_exact [OF assms] recordFailure_exact [OF assms]
        rowAfter_def campAfter_def)
next
  case FailsAtContactUpdate
  let ?d1 = "d\<lparr>messages := messages d @ [campaignMessage snap cc]\<rparr>"
  have a1: "c_id (snap_campaign snap) \<in> c_id ` set (campaigns ?d1)"
    and a2: "(c_id (snap_campaign snap), cc_contactId cc) \<in> rowKey ` set (campaignContacts ?d1)"
    using assms by simp_all
  show ?thesis using FailsAtContactUpdate
    by (simp add: processContact_def sendAttempt_exact [OF assms] recordFailure_exact [OF a1 a2]
        rowAfter_def campAfter_def)
next
  case FailsAtCounterUpdate
  let ?k = "(c_id (snap_campaign snap), cc_contactId cc)"
  let ?g = "\<lambda>r. r\<lparr>cc_status := CC_SENT, cc_sentAt := Some now\<rparr>"
  let ?rows = "map (\<lambda>r. if rowKey r = ?k then ?g r else r) (campaignContacts d)"
  let ?d2 = "d\<lparr>messages := messages d @ [campaignMessage snap cc], campaignContacts := ?rows\<rparr>"
  have gk: "\<And>r. rowKey (?g r) = rowKey r" by (simp add: rowKey_def)
  have a1: "c_id (snap_campaign snap) \<in> c_id ` set (campaigns ?d2)" using assms by simp
  have "rowKey ` set ?rows = rowKey ` set (campaignContacts d)"
    by (rule keys_after_row_update [OF gk])
  then have a2: "?k \<in> rowKey ` set (campaignContacts ?d2)" using assms(2) by simp
  have tw: "map (\<lambda>r. if rowKey r = ?k
                       then r\<lparr>cc_status := CC_FAILED, cc_failedAt := Some now,
                              cc_errorMessage := Some ''Failed to send message''\<rparr>
                       else r) ?rows
          = map (\<lambda>r. if rowKey r = ?k then rowAfter now FailsAtCounterUpdate r else r)
              (campaignContacts d)"
    unfolding map_if_twice [where key = rowKey and g = ?g, OF gk]
    by (simp add: rowAfter_def)
  show ?thesis using FailsAtCounterUpdate
    by (simp add: processContact_def sendAttempt_exact [OF assms] recordFailure_exact [OF a1 a2]
        campAfter_def tw del: map_map)
qed

lemma attemptAt_0: "attemptAt as 0 = (case as of [] \<Rightarrow> Succeeds | a # _ \<Rightarrow> a)"
  by (cases as) (simp_all add: attemptAt_def)

lemma attemptAt_tl: "attemptAt (tl as) j = attemptAt as (Suc j)"
  by (cases as) (simp_all add: attemptAt_def)

lemma sentOf_le: "sentOf n as \<le> n"
  by (induction n as rule: sentOf.induct) auto

lemma campAfter_id [simp]: "c_id (campAfter s f x) = c_id x"
  by (simp add: campAfter_def)

lemma campAfter_zero [simp]: "campAfter 0 0 x = x"
  by (simp add: campAfter_def)

lemma campAfter_twice: "campAfter s' f' (campAfter s f x) = campAfter (s + s') (f + f') x"
  by (simp add: campAfter_def)

lemma ids_after_campaign_update:
  assumes "\<And>x. c_id (f x) = c_id x"
  shows "c_id ` set (map (\<lambda>x. if c_id x = cid then f x else x) cs) = c_id ` set cs"
proof -
  have "map c_id (map (\<lambda>x. if c_id x = cid then f x else x) cs) = map c_id cs"
    using assms by (induction cs) auto
  then have "set (map c_id (map (\<lambda>x. if c_id x = cid then f x else x) cs)) = set (map c_id cs)"
    by (rule arg_cong)
  then show ?thesis by (simp only: set_map)
qed

lemma rowRel_step:
  assumes t: "rowRel cid now ccs (tl as) (if rowKey r = (cid, cc_contactId cc)
                                          then rowAfter now (attemptAt as 0) r else r) r'"
    and d: "cc_contactId cc \<notin> cc_contactId ` set ccs"
  shows "rowRel cid now (cc # ccs) as r r'"
  unfolding rowRel_def
proof (intro conjI allI impI)
  assume "rowKey r \<notin> (\<lambda>cc. (cid, cc_contactId cc)) ` set (cc # ccs)"
  then have "rowKey r \<noteq> (cid, cc_contactId cc)"
    and "rowKey r \<notin> (\<lambda>cc. (cid, cc_contactId cc)) ` set ccs" by auto
  then show "r' = r" using t by (simp add: rowRel_def)
next
  fix i assume i: "i < length (cc # ccs)"
    and k: "rowKey r = (cid, cc_contactId ((cc # ccs) ! i))"
  show "r' = rowAfter now (attemptAt as i) r"
  proof (cases i)
    case 0
    then have k0: "rowKey r = (cid, cc_contactId cc)" using k by simp
    have "rowKey (rowAfter now (attemptAt as 0) r) \<notin> (\<lambda>cc. (cid, cc_contactId cc)) ` set ccs"
      using k0 d by auto
    then show ?thesis using t k0 0 by (simp add: rowRel_def)
  next
    case (Suc j)
    then have j: "j < length ccs" and kj: "rowKey r = (cid, cc_contactId (ccs ! j))"
      using i k by simp_all
    have "cc_contactId (ccs ! j) \<in> cc_contactId ` set ccs" using j by simp
    then have "rowKey r \<noteq> (cid, cc_contactId cc)" using kj d by auto
    then have "rowRel cid now ccs (tl as) r r'" using t by simp
    then have "r' = rowAfter now (attemptAt (tl as) j) r"
      using j kj by (simp add: rowRel_def)
    then show ?thesis using Suc by (simp add: attemptAt_tl)
  qed
qed

lemma processContacts_exact:
  assumes "c_id (snap_campaign snap) \<in> c_id ` set (campaigns d)"
    and "\<forall>cc \<in> set ccs. (c_id (snap_campaign snap), cc_contactId cc)
           \<in> rowKey ` set (campaignContacts d)"
    and "distinct (map cc_contactId ccs)"
  shows "\<exists>d'. processContacts snap ccs now as d = Done d'
       \<and> users d' = users d \<and> plans d' = plans d \<and> templates d' = templates d
       \<and> campaigns d' =
           map (\<lambda>x. if c_id x = c_id (snap_campaign snap)
                     then campAfter (sentOf (length ccs) as)
                            (length ccs - sentOf (length ccs) as) x
                     else x) (campaigns d)
       \<and> list_all2 (rowRel (c_id (snap_campaign snap)) now ccs as)
           (campaignContacts d) (campaignContacts d')"
  using assms
proof (induction ccs arbitrary: as d)
  case Nil
  have c: "map (\<lambda>x. if c_id x = c_id (snap_campaign snap)
                      then campAfter (sentOf (length ([] :: CampaignContact list)) as)
                             (length ([] :: CampaignContact list)
                                - sentOf (length ([] :: CampaignContact list)) as) x
                      else x) (campaigns d) = campaigns d"
    by (rule map_idI) simp
  have r: "list_all2 (rowRel (c_id (snap_campaign snap)) now [] as)
             (campaignContacts d) (campaignContacts d)"
    by (rule list_all2_refl) (simp add: rowRel_def)
  show ?case using c r by simp
next
  case (Cons cc ccs)
  let ?cid = "c_id (snap_campaign snap)"
  let ?a = "attemptAt as 0"
  let ?h = "\<lambda>r. if rowKey r = (?cid, cc_contactId cc) then rowAfter now ?a r else r"
  let ?s0 = "if ?a = Succeeds then 1 else (0::nat)"
  let ?f0 = "if ?a = Succeeds then 0 else (1::nat)"
  let ?g = "\<lambda>x. if c_id x = ?cid then campAfter ?s0 ?f0 x else x"
  let ?d1 = "d\<lparr>messages := messages d @ (if ?a = FailsAtMessageCreate then []
                                            else [campaignMessage snap cc]),
               campaignContacts := map ?h (campaignContacts d),
               campaigns := map ?g (campaigns d)\<rparr>"
  have row: "(?cid, cc_contactId cc) \<in> rowKey ` set (campaignContacts d)"
    using Cons.prems(2) by simp
  have p: "processContact snap cc now ?a d = Done ?d1"
    by (rule processContact_exact [OF Cons.prems(1) row])
  have ids1: "?cid \<in> c_id ` set (campaigns ?d1)"
    using Cons.prems(1) ids_after_campaign_update [of "campAfter ?s0 ?f0" ?cid "campaigns d"]
    by simp
  have keys1: "rowKey ` set (campaignContacts ?d1) = rowKey ` set (campaignContacts d)"
    using keys_after_row_update [of "rowAfter now ?a" "(?cid, cc_contactId cc)" "campaignContacts d"]
    by simp
  have rows1: "\<forall>x \<in> set ccs. (?cid, cc_contactId x) \<in> rowKey ` set (campaignContacts ?d1)"
    using Cons.prems(2) unfolding keys1 by simp
  have dist: "distinct (map cc_contactId ccs)"
    and fresh: "cc_contactId cc \<notin> cc_contactId ` set ccs"
    using Cons.prems(3) by simp_all
  from Cons.IH [OF ids1 rows1 dist, of "tl as"]
  obtain d' where r: "processContacts snap ccs now (tl as) ?d1 = Done d'"
    and fr: "users d' = users ?d1" "plans d' = plans ?d1" "templates d' = templates ?d1"
    and cs: "campaigns d' =
               map (\<lambda>x. if c_id x = ?cid
                         then campAfter (sentOf (length ccs) (tl as))
                                (length ccs - sentOf (length ccs) (tl as)) x
                         else x) (campaigns ?d1)"
    and rl: "list_all2 (rowRel ?cid now ccs (tl as)) (campaignContacts ?d1) (campaignContacts d')"
    by blast
  have run: "processContacts snap (cc # ccs) now as d = Done d'"
    using p r by (simp add: attemptAt_0)
  have le: "sentOf (length ccs) (tl as) \<le> length ccs" by (rule sentOf_le)
  have s: "sentOf (length (cc # ccs)) as = ?s0 + sentOf (length ccs) (tl as)"
    by (simp add: attemptAt_0)
  have f: "length (cc # ccs) - sentOf (length (cc # ccs)) as
             = ?f0 + (length ccs - sentOf (length ccs) (tl as))"
    using le by (simp add: attemptAt_0)
  have cs': "campaigns d' =
               map (\<lambda>x. if c_id x = ?cid
                         then campAfter (sentOf (length (cc # ccs)) as)
                                (length (cc # ccs) - sentOf (length (cc # ccs)) as) x
                         else x) (campaigns d)"
    unfolding cs using le by (auto simp: campAfter_twice attemptAt_0 Suc_diff_le)
  have "list_all2 (\<lambda>r r'. rowRel ?cid now ccs (tl as) (?h r) r')
          (campaignContacts d) (campaignContacts d')"
    using rl by (simp add: list_all2_map1)
  then have rl': "list_all2 (rowRel ?cid now (cc # ccs) as)
                    (campaignContacts d) (campaignContacts d')"
    by (rule list_all2_mono) (rule rowRel_step [OF _ fresh])
  show ?case using run fr cs' rl' by simp
qed

lemma rowRel_key: "rowRel cid now ccs as r r' \<Longrightarrow> rowKey r' = rowKey r"
proof (cases "rowKey r \<in> (\<lambda>cc. (cid, cc_contactId cc)) ` set ccs")
  case True
  assume a: "rowRel cid now ccs as r r'"
  from True obtain i where "i < length ccs" and "rowKey r = (cid, cc_contactId (ccs ! i))"
    by (auto simp: in_set_conv_nth)
  then have "r' = rowAfter now (attemptAt as i) r" using a by (simp add: rowRel_def)
  then show ?thesis by simp
next
  case False
  assume "rowRel cid now ccs as r r'"
  then show ?thesis using False by (simp add: rowRel_def)
qed

lemma list_all2_filter_same:
  assumes "list_all2 R xs ys" and "\<And>x y. R x y \<Longrightarrow> P x = P y"
  shows "list_all2 R (filter P xs) (filter P ys)"
  using assms by (induction rule: list_all2_induct) auto

lemma contactsOf_rel:
  assumes "list_all2 (rowRel cid now ccs as) (campaignContacts d) (campaignContacts d')"
  shows "list_all2 (rowRel cid now ccs as) (contactsOf d k) (contactsOf d' k)"
  unfolding contactsOf_def
proof (rule list_all2_filter_same [OF assms])
  fix x y assume "rowRel cid now ccs as x y"
  then have "rowKey y = rowKey x" by (rule rowRel_key)
  then show "(cc_campaignId x = k) = (cc_campaignId y = k)" by (simp add: rowKey_def)
qed

lemma contactsOf_campaignId: "r \<in> set (contactsOf d cid) \<Longrightarrow> cc_campaignId r = cid"
  by (simp add: contactsOf_def)

lemma contactsOf_keys:
  "r \<in> set (contactsOf d cid) \<Longrightarrow> (cid, cc_contactId r) \<in> rowKey ` set (campaignContacts d)"
  by (force simp: contactsOf_def rowKey_def)

lemma countPending_contactsOf:
  "campaignContact_countPending cid d
     = length (filter (\<lambda>r. cc_status r = CC_PENDING) (contactsOf d cid))"
  by (simp add: campaignContact_countPending_def contactsOf_def conj_commute)

lemma start_exact:
  assumes find: "findCampaign d cid uid = Some c"
    and st: "c_status c = DRAFT \<or> c_status c = SCHEDULED"
    and dist: "distinct (map cc_contactId (contactsOf d cid))"
  shows "\<exists>d2. snd (startCampaign cid uid now as d) =
             (if campaignContact_countPending cid d2 = 0
              then d2\<lparr>campaigns := map (\<lambda>x. if c_id x = cid
                         then x\<lparr>c_status := COMPLETED, c_completedAt := Some now\<rparr> else x)
                       (campaigns d2)\<rparr>
              else d2)
         \<and> users d2 = users d \<and> plans d2 = plans d
         \<and> campaigns d2 =
             map (\<lambda>x. if c_id x = cid
                       then campAfter (sentOf (min 5 (length (contactsOf d cid))) as)
                              (min 5 (length (contactsOf d cid))
                                 - sentOf (min 5 (length (contactsOf d cid))) as)
                              (x\<lparr>c_status := RUNNING, c_startedAt := Some now\<rparr>)
                       else x) (campaigns d)
         \<and> list_all2 (rowRel cid now (take 5 (contactsOf d cid)) as)
             (campaignContacts d) (campaignContacts d2)"
proof -
  let ?f = "\<lambda>x. x\<lparr>c_status := RUNNING, c_startedAt := Some now\<rparr>"
  let ?d1 = "d\<lparr>campaigns := map (\<lambda>x. if c_id x = cid then ?f x else x) (campaigns d)\<rparr>"
  let ?snap = "\<lparr>snap_campaign = c, snap_contacts = contactsOf d cid,
                 snap_template = templateOf d c\<rparr>"
  let ?ccs = "take 5 (contactsOf d cid)"
  have cid: "c_id (snap_campaign ?snap) = cid" using findCampaign_member [OF find] by simp
  have s: "snd (startCampaign cid uid now as d) = processCampaignMessages ?snap now as ?d1"
    by (simp add: startCampaign_accepted [OF find st])
  have "c_id ` set (campaigns ?d1) = c_id ` set (campaigns d)"
    using ids_after_campaign_update [of ?f cid "campaigns d"] by simp
  then have ids1: "c_id (snap_campaign ?snap) \<in> c_id ` set (campaigns ?d1)"
    using findCampaign_id_exists [OF find] cid by simp
  have rows1: "\<forall>cc \<in> set ?ccs. (c_id (snap_campaign ?snap), cc_contactId cc)
                 \<in> rowKey ` set (campaignContacts ?d1)"
  proof
    fix cc assume "cc \<in> set ?ccs"
    then have "cc \<in> set (contactsOf d cid)" by (rule in_set_takeD)
    then show "(c_id (snap_campaign ?snap), cc_contactId cc)
                 \<in> rowKey ` set (campaignContacts ?d1)"
      using contactsOf_keys [of cc d cid] cid by simp
  qed
  have dist1: "distinct (map cc_contactId ?ccs)"
    using dist by (simp add: take_map [symmetric] distinct_take)
  from processContacts_exact [OF ids1 rows1 dist1, of now as]
  obtain d2 where run: "processContacts ?snap ?ccs now as ?d1 = Done d2"
    and fr: "users d2 = users ?d1" "plans d2 = plans ?d1"
    and cs: "campaigns d2 =
               map (\<lambda>x. if c_id x = c_id (snap_campaign ?snap)
                         then campAfter (sentOf (length ?ccs) as)
                                (length ?ccs - sentOf (length ?ccs) as) x
                         else x) (campaigns ?d1)"
    and rl: "list_all2 (rowRel (c_id (snap_campaign ?snap)) now ?ccs as)
               (campaignContacts ?d1) (campaignContacts d2)"
    by blast
  have ids2: "cid \<in> c_id ` set (campaigns d2)"
  proof -
    have "c_id ` set (campaigns d2) = c_id ` set (campaigns ?d1)"
      unfolding cs by (rule ids_after_campaign_update) simp
    then show ?thesis using ids1 cid by simp
  qed
  have w: "processCampaignMessages ?snap now as ?d1 =
             (if campaignContact_countPending cid d2 = 0
              then d2\<lparr>campaigns := map (\<lambda>x. if c_id x = cid
                         then x\<lparr>c_status := COMPLETED, c_completedAt := Some now\<rparr> else x)
                       (campaigns d2)\<rparr>
              else d2)"
    using run findCampaign_member [OF find]
    by (simp add: processCampaignMessages_def andThen_def markCompleted_def
        campaign_update_Done [OF ids2])
  have len: "length ?ccs = min 5 (length (contactsOf d cid))" by (simp add: min.commute)
  have cs': "campaigns d2 =
               map (\<lambda>x. if c_id x = cid
                         then campAfter (sentOf (min 5 (length (contactsOf d cid))) as)
                                (min 5 (length (contactsOf d cid))
                                   - sentOf (min 5 (length (contactsOf d cid))) as)
                                (x\<lparr>c_status := RUNNING, c_startedAt := Some now\<rparr>)
                         else x) (campaigns d)"
    unfolding cs len using findCampaign_member [OF find] by simp
  have rl': "list_all2 (rowRel cid now ?ccs as) (campaignContacts d) (campaignContacts d2)"
    using rl findCampaign_member [OF find] by simp
  note sw = s [THEN trans, OF w]
  have u: "users d2 = users d" and p: "plans d2 = plans d" using fr by simp_all
  show ?thesis
    by (intro exI [of _ d2] conjI) (fact sw, fact u, fact p, fact cs', fact rl')
qed

lemma distinct_drop_fresh:
  assumes "distinct (map f xs)" and "x \<in> set (drop n xs)"
  shows "f x \<notin> f ` set (take n xs)"
proof -
  have "distinct (map f (take n xs) @ map f (drop n xs))"
    using assms(1) by (simp add: map_append [symmetric] del: map_append)
  then have "set (map f (take n xs)) \<inter> set (map f (drop n xs)) = {}"
    by (simp only: distinct_append)
  then show ?thesis using assms(2) by auto
qed

lemma rowAfter_status:
  "cc_status (rowAfter now a r) = (if a = Succeeds then CC_SENT else CC_FAILED)"
  by (cases a) (simp_all add: rowAfter_def)

lemma rowAfter_error:
  "cc_errorMessage (rowAfter now a r)
     = (if a = Succeeds then cc_errorMessage r else Some ''Failed to send message'')"
  by (cases a) (simp_all add: rowAfter_def)

lemma start_rows:
  assumes find: "findCampaign d cid uid = Some c"
    and st: "c_status c = DRAFT \<or> c_status c = SCHEDULED"
    and dist: "distinct (map cc_contactId (contactsOf d cid))"
  shows "list_all2 (rowRel cid now (take 5 (contactsOf d cid)) as)
           (contactsOf d cid) (contactsOf (snd (startCampaign cid uid now as d)) cid)
       \<and> users (snd (startCampaign cid uid now as d)) = users d
       \<and> plans (snd (startCampaign cid uid now as d)) = plans d"
proof -
  from start_exact [OF find st dist, of now as]
  obtain d2 where s: "snd (startCampaign cid uid now as d) =
             (if campaignContact_countPending cid d2 = 0
              then d2\<lparr>campaigns := map (\<lambda>x. if c_id x = cid
                         then x\<lparr>c_status := COMPLETED, c_completedAt := Some now\<rparr> else x)
                       (campaigns d2)\<rparr>
              else d2)"
    and u: "users d2 = users d" and p: "plans d2 = plans d"
    and rl: "list_all2 (rowRel cid now (take 5 (contactsOf d cid)) as)
               (campaignContacts d) (campaignContacts d2)"
    by blast
  have "campaignContacts (snd (startCampaign cid uid now as d)) = campaignContacts d2"
    unfolding s by simp
  then have "contactsOf (snd (startCampaign cid uid now as d)) cid = contactsOf d2 cid"
    by (simp add: contactsOf_def)
  moreover have "users (snd (startCampaign cid uid now as d)) = users d"
    unfolding s using u by simp
  moreover have "plans (snd (startCampaign cid uid now as d)) = plans d"
    unfolding s using p by simp
  ultimately show ?thesis using contactsOf_rel [OF rl, of cid] by simp
qed

lemma start_row_processed:
  assumes find: "findCampaign d cid uid = Some c"
    and st: "c_status c = DRAFT \<or> c_status c = SCHEDULED"
    and dist: "distinct (map cc_contactId (contactsOf d cid))"
    and i: "i < length (contactsOf d cid)" "i < 5"
  shows "contactsOf (snd (startCampaign cid uid now as d)) cid ! i
           = rowAfter now (attemptAt as i) (contactsOf d cid ! i)"
proof -
  let ?rows = "contactsOf d cid"
  have rl: "list_all2 (rowRel cid now (take 5 ?rows) as) ?rows
              (contactsOf (snd (startCampaign cid uid now as d)) cid)"
    using start_rows [OF find st dist] by simp
  have r: "rowRel cid now (take 5 ?rows) as (?rows ! i)
             (contactsOf (snd (startCampaign cid uid now as d)) cid ! i)"
    by (rule list_all2_nthD [OF rl i(1)])
  have it: "i < length (take 5 ?rows)" using i by simp
  have "cc_campaignId (?rows ! i) = cid"
    using contactsOf_campaignId [of "?rows ! i" d cid] i(1) by simp
  then have k: "rowKey (?rows ! i) = (cid, cc_contactId (take 5 ?rows ! i))"
    using i by (simp add: rowKey_def)
  show ?thesis using r it k unfolding rowRel_def by blast
qed

lemma start_rows_beyond:
  assumes find: "findCampaign d cid uid = Some c"
    and st: "c_status c = DRAFT \<or> c_status c = SCHEDULED"
    and dist: "distinct (map cc_contactId (contactsOf d cid))"
  shows "drop 5 (contactsOf (snd (startCampaign cid uid now as d)) cid)
           = drop 5 (contactsOf d cid)"
proof -
  let ?rows = "contactsOf d cid"
  let ?rows' = "contactsOf (snd (startCampaign cid uid now as d)) cid"
  have rl: "list_all2 (rowRel cid now (take 5 ?rows) as) ?rows ?rows'"
    using start_rows [OF find st dist] by simp
  then have "list_all2 (rowRel cid now (take 5 ?rows) as) (drop 5 ?rows) (drop 5 ?rows')"
    by (rule list_all2_dropI)
  then have "list_all2 (\<lambda>r r'. r = r') (drop 5 ?rows) (drop 5 ?rows')"
  proof (rule list.rel_mono_strong)
    fix r r' assume m: "r \<in> set (drop 5 ?rows)"
      and rr: "rowRel cid now (take 5 ?rows) as r r'"
    have "cc_contactId r \<notin> cc_contactId ` set (take 5 ?rows)"
      by (rule distinct_drop_fresh [OF dist m])
    then have "rowKey r \<notin> (\<lambda>cc. (cid, cc_contactId cc)) ` set (take 5 ?rows)"
      by (auto simp: rowKey_def)
    then show "r = r'" using rr by (simp add: rowRel_def)
  qed
  then show ?thesis by (simp add: list_all2_eq [symmetric])
qed

lemma start_campaign_after:
  assumes find: "findCampaign d cid uid = Some c"
    and st: "c_status c = DRAFT \<or> c_status c = SCHEDULED"
    and dist: "distinct (map cc_contactId (contactsOf d cid))"
  shows "\<exists>c'. findCampaign (snd (startCampaign cid uid now as d)) cid uid = Some c'
       \<and> c_sentCount c' = c_sentCount c + int (sentOf (min 5 (length (contactsOf d cid))) as)
       \<and> c_failedCount c' = c_failedCount c
           + int (min 5 (length (contactsOf d cid))
                  - sentOf (min 5 (length (contactsOf d cid))) as)
       \<and> c_status c' =
           (if campaignContact_countPending cid (snd (startCampaign cid uid now as d)) = 0
            then COMPLETED else RUNNING)"
proof -
  let ?n = "min 5 (length (contactsOf d cid))"
  let ?F = "\<lambda>x. campAfter (sentOf ?n as) (?n - sentOf ?n as)
                  (x\<lparr>c_status := RUNNING, c_startedAt := Some now\<rparr>)"
  let ?G = "\<lambda>x. (?F x)\<lparr>c_status := COMPLETED, c_completedAt := Some now\<rparr>"
  from start_exact [OF find st dist, of now as]
  obtain d2 where s: "snd (startCampaign cid uid now as d) =
             (if campaignContact_countPending cid d2 = 0
              then d2\<lparr>campaigns := map (\<lambda>x. if c_id x = cid
                         then x\<lparr>c_status := COMPLETED, c_completedAt := Some now\<rparr> else x)
                       (campaigns d2)\<rparr>
              else d2)"
    and cs: "campaigns d2 = map (\<lambda>x. if c_id x = cid then ?F x else x) (campaigns d)"
    by blast
  have pc: "campaignContact_countPending cid (snd (startCampaign cid uid now as d))
              = campaignContact_countPending cid d2"
    unfolding s by (simp add: campaignContact_countPending_def)
  show ?thesis
  proof (cases "campaignContact_countPending cid d2 = 0")
    case True
    have "campaigns (snd (startCampaign cid uid now as d))
            = map (\<lambda>x. if c_id x = cid then ?G x else x) (campaigns d)"
      unfolding s cs using True by (simp add: o_def campAfter_def cong: if_cong)
    then have "findCampaign (snd (startCampaign cid uid now as d)) cid uid = Some (?G c)"
      using findCampaign_after_update [OF find, of ?G] by (simp add: findCampaign_def campAfter_def)
    then show ?thesis using True pc by (simp add: campAfter_def)
  next
    case False
    have "campaigns (snd (startCampaign cid uid now as d))
            = map (\<lambda>x. if c_id x = cid then ?F x else x) (campaigns d)"
      using False cs by (simp add: s)
    then have "findCampaign (snd (startCampaign cid uid now as d)) cid uid = Some (?F c)"
      using findCampaign_after_update [OF find, of ?F] by (simp add: findCampaign_def campAfter_def)
    then show ?thesis using False pc by (simp add: campAfter_def)
  qed
qed

lemma sixDb_rows: "contactsOf sixDb ''c1'' = map (pendingRow ''c1'') [''a'', ''b'', ''c'', ''d'', ''e'', ''f'']"
  by (simp add: contactsOf_def sixDb_def pendingRow_def)

text \<open>
  C9. Start a campaign in DRAFT or SCHEDULED that has more than five contact rows, the
  contacts distinct (the schema's unique key) and the rows after the fifth PENDING, as
  they are from creation on. Whatever the attempts do, the rows after the
  fifth are exactly what they were (the worker handles the first five only), at least
  one row is still PENDING, and the campaign is not COMPLETED: its status is RUNNING.
\<close>

theorem worker_batch_of_five:
  assumes find: "findCampaign d cid uid = Some c"
    and st: "c_status c = DRAFT \<or> c_status c = SCHEDULED"
    and dist: "distinct (map cc_contactId (contactsOf d cid))"
    and more: "5 < length (contactsOf d cid)"
    and pend: "\<forall>r \<in> set (drop 5 (contactsOf d cid)). cc_status r = CC_PENDING"
  shows "fst (startCampaign cid uid now as d)
           = Response 200 (MessageBody ''Campaign started successfully'')
       \<and> drop 5 (contactsOf (snd (startCampaign cid uid now as d)) cid)
           = drop 5 (contactsOf d cid)
       \<and> 0 < campaignContact_countPending cid (snd (startCampaign cid uid now as d))
       \<and> map_option c_status (findCampaign (snd (startCampaign cid uid now as d)) cid uid)
           = Some RUNNING"
proof -
  let ?d' = "snd (startCampaign cid uid now as d)"
  have r: "fst (startCampaign cid uid now as d)
             = Response 200 (MessageBody ''Campaign started successfully'')"
    by (simp add: startCampaign_accepted [OF find st])
  have b: "drop 5 (contactsOf ?d' cid) = drop 5 (contactsOf d cid)"
    by (rule start_rows_beyond [OF find st dist])
  have ne: "drop 5 (contactsOf d cid) \<noteq> []" using more by simp
  then obtain x where x: "x \<in> set (drop 5 (contactsOf d cid))"
    by (cases "drop 5 (contactsOf d cid)") auto
  then have "x \<in> set (contactsOf ?d' cid)" unfolding b [symmetric] by (rule in_set_dropD)
  moreover have "cc_status x = CC_PENDING" using pend x by blast
  ultimately have "filter (\<lambda>r. cc_status r = CC_PENDING) (contactsOf ?d' cid) \<noteq> []"
    by (auto simp: filter_empty_conv)
  then have p: "0 < campaignContact_countPending cid ?d'"
    by (simp add: countPending_contactsOf)
  from start_campaign_after [OF find st dist, of now as]
  obtain c' where "findCampaign ?d' cid uid = Some c'"
    and "c_status c' = (if campaignContact_countPending cid ?d' = 0 then COMPLETED else RUNNING)"
    by blast
  then have s: "map_option c_status (findCampaign ?d' cid uid) = Some RUNNING"
    using p by simp
  show ?thesis using r b p s by blast
qed

theorem worker_batch_of_five_witness:
  "5 < length (contactsOf sixDb ''c1'')
   \<and> fst (startCampaign ''c1'' ''u1'' 10 [] sixDb)
       = Response 200 (MessageBody ''Campaign started successfully'')
   \<and> drop 5 (contactsOf (snd (startCampaign ''c1'' ''u1'' 10 [] sixDb)) ''c1'')
       = [pendingRow ''c1'' ''f'']
   \<and> 0 < campaignContact_countPending ''c1'' (snd (startCampaign ''c1'' ''u1'' 10 [] sixDb))
   \<and> map_option c_status (findCampaign (snd (startCampaign ''c1'' ''u1'' 10 [] sixDb))
        ''c1'' ''u1'') = Some RUNNING"
proof -
  have st: "c_status (newCampaign ''c1'' ''u1'' DRAFT 6) = DRAFT
            \<or> c_status (newCampaign ''c1'' ''u1'' DRAFT 6) = SCHEDULED"
    by (simp add: newCampaign_def)
  have dist: "distinct (map cc_contactId (contactsOf sixDb ''c1''))"
    by (simp add: sixDb_rows pendingRow_def)
  have more: "5 < length (contactsOf sixDb ''c1'')" by (simp add: sixDb_rows)
  have pend: "\<forall>r \<in> set (drop 5 (contactsOf sixDb ''c1'')). cc_status r = CC_PENDING"
    by (simp add: sixDb_rows pendingRow_def)
  show ?thesis
    using worker_batch_of_five [OF findCampaign_sixDb st dist more pend, of 10 "[]"] more
    by (simp add: sixDb_rows)
qed

text \<open>
  C5, as the claim has it, fails: the worker never looks at the quota. For a tenant whose
  usage-limit check for \<open>messages\<close> rejects, the first five rows are marked SENT
  with no error message, \<open>sentCount\<close> is 5 and \<open>failedCount\<close> is 0.
\<close>

theorem quota_check_in_worker_counterexample:
  "fst (checkUsageLimit ''messages'' ''u1'' sendOne sixDb)
     = Response 403 (UsageLimitBody ''Usage limit exceeded'' ''messages'' (Num 5) (Num 5) True)
   \<and> map cc_status (campaignContacts (snd (startCampaign ''c1'' ''u1'' 10 [] sixDb)))
     = [CC_SENT, CC_SENT, CC_SENT, CC_SENT, CC_SENT, CC_PENDING]
   \<and> map cc_errorMessage (campaignContacts (snd (startCampaign ''c1'' ''u1'' 10 [] sixDb)))
     = [None, None, None, None, None, None]
   \<and> map c_sentCount (campaigns (snd (startCampaign ''c1'' ''u1'' 10 [] sixDb))) = [5]
   \<and> map c_failedCount (campaigns (snd (startCampaign ''c1'' ''u1'' 10 [] sixDb))) = [0]"
proof -
  have q: "fst (checkUsageLimit ''messages'' ''u1'' sendOne sixDb)
     = Response 403 (UsageLimitBody ''Usage limit exceeded'' ''messages'' (Num 5) (Num 5) True)"
    by (simp add: checkUsageLimit_def findUser_def planOf_def sixDb_def alice_def freePlan_def
        getProp_def ownProp_def orZero_def strictNotEq_def greaterEq_def Let_def)
  have w: "snd (startCampaign ''c1'' ''u1'' 10 [] sixDb) =
     sixDb\<lparr>campaigns := [(newCampaign ''c1'' ''u1'' RUNNING 6)
                             \<lparr>c_startedAt := Some 10, c_sentCount := 5\<rparr>],
           campaignContacts :=
             map (\<lambda>k. (pendingRow ''c1'' k)\<lparr>cc_status := CC_SENT, cc_sentAt := Some 10\<rparr>)
               [''a'', ''b'', ''c'', ''d'', ''e''] @ [pendingRow ''c1'' ''f''],
           messages := map (\<lambda>k. campaignMessage
               \<lparr>snap_campaign = newCampaign ''c1'' ''u1'' DRAFT 6,
                snap_contacts = contactsOf sixDb ''c1'', snap_template = None\<rparr>
               (pendingRow ''c1'' k)) [''a'', ''b'', ''c'', ''d'', ''e'']\<rparr>"
    by (simp add: run_defs sixDb_def newCampaign_def pendingRow_def)
  show ?thesis unfolding w using q by (simp add: newCampaign_def pendingRow_def)
qed

text \<open>
  C5, amended. The worker makes no quota check and calls no gateway. Whatever the
  tenant's plan and recorded usage are, for each of the first five rows of a started
  campaign (contacts distinct): the row is SENT when its attempt succeeds, and FAILED
  with the reason "Failed to send message" only when one of the worker's writes for it
  throws; \<open>sentCount\<close> rises by the number of attempts that succeed and
  \<open>failedCount\<close> by the number that fail; the user and plan tables, so the
  recorded usage, are what they were.
\<close>

theorem worker_ignores_quota:
  assumes find: "findCampaign d cid uid = Some c"
    and st: "c_status c = DRAFT \<or> c_status c = SCHEDULED"
    and dist: "distinct (map cc_contactId (contactsOf d cid))"
    and i: "i < length (contactsOf d cid)" "i < 5"
  shows "users (snd (startCampaign cid uid now as d)) = users d
       \<and> plans (snd (startCampaign cid uid now as d)) = plans d
       \<and> cc_status (contactsOf (snd (startCampaign cid uid now as d)) cid ! i)
           = (if attemptAt as i = Succeeds then CC_SENT else CC_FAILED)
       \<and> cc_errorMessage (contactsOf (snd (startCampaign cid uid now as d)) cid ! i)
           = (if attemptAt as i = Succeeds then cc_errorMessage (contactsOf d cid ! i)
              else Some ''Failed to send message'')
       \<and> map_option c_sentCount (findCampaign (snd (startCampaign cid uid now as d)) cid uid)
           = Some (c_sentCount c + int (sentOf (min 5 (length (contactsOf d cid))) as))
       \<and> map_option c_failedCount (findCampaign (snd (startCampaign cid uid now as d)) cid uid)
           = Some (c_failedCount c + int (min 5 (length (contactsOf d cid))
                                           - sentOf (min 5 (length (contactsOf d cid))) as))"
proof -
  let ?d' = "snd (startCampaign cid uid now as d)"
  have u: "users ?d' = users d" and p: "plans ?d' = plans d"
    using start_rows [OF find st dist, of now as] by simp_all
  have row: "contactsOf ?d' cid ! i = rowAfter now (attemptAt as i) (contactsOf d cid ! i)"
    by (rule start_row_processed [OF find st dist i])
  have s: "cc_status (contactsOf ?d' cid ! i)
             = (if attemptAt as i = Succeeds then CC_SENT else CC_FAILED)"
    unfolding row by (rule rowAfter_status)
  have e: "cc_errorMessage (contactsOf ?d' cid ! i)
             = (if attemptAt as i = Succeeds then cc_errorMessage (contactsOf d cid ! i)
                else Some ''Failed to send message'')"
    unfolding row by (rule rowAfter_error)
  from start_campaign_after [OF find st dist, of now as]
  obtain c' where f: "findCampaign ?d' cid uid = Some c'"
    and sc: "c_sentCount c'
               = c_sentCount c + int (sentOf (min 5 (length (contactsOf d cid))) as)"
    and fc: "c_failedCount c'
               = c_failedCount c + int (min 5 (length (contactsOf d cid))
                                        - sentOf (min 5 (length (contactsOf d cid))) as)"
    by blast
  have cs: "map_option c_sentCount (findCampaign ?d' cid uid)
              = Some (c_sentCount c + int (sentOf (min 5 (length (contactsOf d cid))) as))"
    unfolding f using sc by simp
  have cf: "map_option c_failedCount (findCampaign ?d' cid uid)
              = Some (c_failedCount c + int (min 5 (length (contactsOf d cid))
                                             - sentOf (min 5 (length (contactsOf d cid))) as))"
    unfolding f using fc by simp
  show ?thesis using u p s e cs cf by blast
qed

theorem worker_ignores_quota_witness:
  "fst (checkUsageLimit ''messages'' ''u1'' sendOne sixDb)
     = Response 403 (UsageLimitBody ''Usage limit exceeded'' ''messages'' (Num 5) (Num 5) True)
   \<and> users (snd (startCampaign ''c1'' ''u1'' 10 [Succeeds, FailsAtMessageCreate] sixDb))
       = [alice]
   \<and> cc_status (contactsOf (snd (startCampaign ''c1'' ''u1'' 10
        [Succeeds, FailsAtMessageCreate] sixDb)) ''c1'' ! 0) = CC_SENT
   \<and> cc_status (contactsOf (snd (startCampaign ''c1'' ''u1'' 10
        [Succeeds, FailsAtMessageCreate] sixDb)) ''c1'' ! 1) = CC_FAILED
   \<and> cc_errorMessage (contactsOf (snd (startCampaign ''c1'' ''u1'' 10
        [Succeeds, FailsAtMessageCreate] sixDb)) ''c1'' ! 1) = Some ''Failed to send message''
   \<and> map_option c_sentCount (findCampaign (snd (startCampaign ''c1'' ''u1'' 10
        [Succeeds, FailsAtMessageCreate] sixDb)) ''c1'' ''u1'') = Some 4
   \<and> map_option c_failedCount (findCampaign (snd (startCampaign ''c1'' ''u1'' 10
        [Succeeds, FailsAtMessageCreate] sixDb)) ''c1'' ''u1'') = Some 1"
proof -
  have q: "fst (checkUsageLimit ''messages'' ''u1'' sendOne sixDb)
     = Response 403 (UsageLimitBody ''Usage limit exceeded'' ''messages'' (Num 5) (Num 5) True)"
    by (simp add: checkUsageLimit_def findUser_def planOf_def sixDb_def alice_def freePlan_def
        getProp_def ownProp_def orZero_def strictNotEq_def greaterEq_def Let_def)
  have st: "c_status (newCampaign ''c1'' ''u1'' DRAFT 6) = DRAFT
            \<or> c_status (newCampaign ''c1'' ''u1'' DRAFT 6) = SCHEDULED"
    by (simp add: newCampaign_def)
  have dist: "distinct (map cc_contactId (contactsOf sixDb ''c1''))"
    by (simp add: sixDb_rows pendingRow_def)
  have i0: "0 < length (contactsOf sixDb ''c1'')" "(0::nat) < 5" by (simp_all add: sixDb_rows)
  have i1: "1 < length (contactsOf sixDb ''c1'')" "(1::nat) < 5" by (simp_all add: sixDb_rows)
  have n: "sentOf (min 5 (length (contactsOf sixDb ''c1''))) [Succeeds, FailsAtMessageCreate] = 4"
    by (simp add: sixDb_rows eval_nat_numeral)
  have u: "users sixDb = [alice]" by (simp add: sixDb_def)
  show ?thesis
    using worker_ignores_quota [OF findCampaign_sixDb st dist i0,
        of 10 "[Succeeds, FailsAtMessageCreate]"]
      worker_ignores_quota [OF findCampaign_sixDb st dist i1,
        of 10 "[Succeeds, FailsAtMessageCreate]"] q n u
    by (simp add: attemptAt_def newCampaign_def sixDb_rows)
qed

end
